theory Spec2Isabelle
  imports Main
begin

section \<open>Exceptions\<close>

text \<open>
  The module \<^verbatim>\<open>utils/embed.py\<close> has no \<^verbatim>\<open>raise\<close> and no \<^verbatim>\<open>try\<close> of its own: every
  exception comes out of a library call or an array indexing and leaves the function at
  once. A computation therefore yields \<open>Inl\<close> of the exception or \<open>Inr\<close> of its value.
\<close>

datatype error = ValueError | IndexError | LibraryError string

section \<open>Computations with effects\<close>

text \<open>
  A function of the module that calls into a library changes a state (a model object, the
  file system, the sequence of library calls made so far) and returns a value or raises.
  The state survives an exception: what was done before it stays done.
\<close>

type_synonym ('a, 'st) action = "'st \<Rightarrow> (error + 'a) \<times> 'st"

definition returns :: "'a \<Rightarrow> ('a, 'st) action" where
  "returns v = (\<lambda>s. (Inr v, s))"

definition lift :: "error + 'a \<Rightarrow> ('a, 'st) action" where
  "lift r = (\<lambda>s. (r, s))"

definition bind :: "('a, 'st) action \<Rightarrow> ('a \<Rightarrow> ('b, 'st) action) \<Rightarrow> ('b, 'st) action" where
  "bind act rest =
     (\<lambda>s. case act s of (Inl err, s') \<Rightarrow> (Inl err, s') | (Inr v, s') \<Rightarrow> rest v s')"

section \<open>Training embeddings\<close>

text \<open>
  The embedding library. The relations reader \<^verbatim>\<open>PoincareRelations(file_path, delimiter)\<close>,
  the trainer \<^verbatim>\<open>PoincareModel(train_data, size, alpha, burn_in, burn_in_alpha, workers,
  negative)\<close>, its method \<^verbatim>\<open>train(epochs, print_every, batch_size)\<close> and
  \<^verbatim>\<open>model.kv.save_word2vec_format(path)\<close> are not part of the repository: they are
  parameters. Integers are \<open>int\<close>, the two learning rates are of a type \<open>'f\<close> on which
  nothing is computed here, a reader is a \<open>'rel\<close> and the state of a trainer a \<open>'pm\<close>.
  \<^verbatim>\<open>train\<close> returns the state it leaves the trainer in; \<^verbatim>\<open>save_word2vec_format\<close> returns
  the text it stores at the path, in the library's vector text format. A call that raises
  is taken to store nothing, and only \<^verbatim>\<open>save_word2vec_format\<close> stores a file.
\<close>

record ('f, 'rel, 'pm) gensim =
  PoincareRelations :: "string \<Rightarrow> string \<Rightarrow> error + 'rel"
  PoincareModel :: "'rel \<Rightarrow> int \<Rightarrow> 'f \<Rightarrow> int \<Rightarrow> 'f \<Rightarrow> int \<Rightarrow> int \<Rightarrow> error + 'pm"
  train :: "'pm \<Rightarrow> int \<Rightarrow> int \<Rightarrow> int \<Rightarrow> error + 'pm"
  save_word2vec_format :: "'pm \<Rightarrow> string \<Rightarrow> error + string"

text \<open>The calls into the embedding library, with their arguments in the order above.\<close>

datatype ('f, 'rel, 'pm) gensim_call =
    NewPoincareRelations string string
  | NewPoincareModel 'rel int 'f int 'f int int
  | Train 'pm int int int
  | SaveWord2vecFormat 'pm string

text \<open>What a call of \<^verbatim>\<open>train_embeddings\<close> can change: the files, and the calls made.\<close>

record ('f, 'rel, 'pm) world =
  files :: "string \<rightharpoonup> string"
  gensim_calls :: "('f, 'rel, 'pm) gensim_call list"

definition gensim_call ::
  "('f, 'rel, 'pm) gensim_call \<Rightarrow> error + 'a \<Rightarrow> ('a, ('f, 'rel, 'pm) world) action" where
  "gensim_call c r = (\<lambda>w. (r, w\<lparr>gensim_calls := gensim_calls w @ [c]\<rparr>))"

text \<open>\<^verbatim>\<open>model.kv.save_word2vec_format(path)\<close>\<close>

definition save_vectors ::
  "('f, 'rel, 'pm) gensim \<Rightarrow> 'pm \<Rightarrow> string \<Rightarrow> (unit, ('f, 'rel, 'pm) world) action" where
  "save_vectors g m path =
     (\<lambda>w. case save_word2vec_format g m path of
        Inl err \<Rightarrow> (Inl err, w\<lparr>gensim_calls := gensim_calls w @ [SaveWord2vecFormat m path]\<rparr>)
      | Inr text \<Rightarrow>
          (Inr (), w\<lparr>files := (files w)(path \<mapsto> text),
                      gensim_calls := gensim_calls w @ [SaveWord2vecFormat m path]\<rparr>))"

text \<open>
  \<^verbatim>\<open>
  def train_embeddings(input_path, delimiter, output_path, size=2, alpha=0.1, burn_in=10,
                       burn_in_alpha=0.01, workers=1, negative=10, epochs=100,
                       print_every=500, batch_size=10):
      relations = PoincareRelations(file_path=input_path, delimiter=delimiter)
      model = PoincareModel(train_data=relations, size=size, alpha=alpha, burn_in=burn_in,
                            burn_in_alpha=burn_in_alpha, workers=workers, negative=negative)
      model.train(epochs=epochs, print_every=print_every,batch_size=batch_size)
      model.kv.save_word2vec_format(output_path)
      return
  \<close>
  The bare \<^verbatim>\<open>return\<close> yields \<^verbatim>\<open>None\<close>, the one value of type \<open>unit\<close>. The parameter
  \<^verbatim>\<open>size\<close> is written \<open>dim\<close>.
\<close>

definition train_embeddings ::
  "('f, 'rel, 'pm) gensim \<Rightarrow> string \<Rightarrow> string \<Rightarrow> string \<Rightarrow> int \<Rightarrow> 'f \<Rightarrow> int \<Rightarrow> 'f \<Rightarrow> int \<Rightarrow>
     int \<Rightarrow> int \<Rightarrow> int \<Rightarrow> int \<Rightarrow> (unit, ('f, 'rel, 'pm) world) action" where
  "train_embeddings g input_path delimiter output_path dim alpha burn_in burn_in_alpha
       workers negative epochs print_every batch_size =
     bind (gensim_call (NewPoincareRelations input_path delimiter)
             (PoincareRelations g input_path delimiter)) (\<lambda>relations.
     bind (gensim_call
             (NewPoincareModel relations dim alpha burn_in burn_in_alpha workers negative)
             (PoincareModel g relations dim alpha burn_in burn_in_alpha workers negative))
       (\<lambda>m.
     bind (gensim_call (Train m epochs print_every batch_size)
             (train g m epochs print_every batch_size)) (\<lambda>m'.
     save_vectors g m' output_path)))"

text \<open>A call that stores a file stores it at \<open>path\<close>.\<close>

fun saves_to :: "string \<Rightarrow> ('f, 'rel, 'pm) gensim_call \<Rightarrow> bool" where
  "saves_to path (SaveWord2vecFormat m p) = (p = path)"
| "saves_to path _ = True"

section \<open>Loading embeddings\<close>

text \<open>
  A data frame as far as \<^verbatim>\<open>load_embeddings\<close> touches it: the column labels, and
  everything else (the index and the cells) as one opaque component.
\<close>

record 'b dataframe =
  columns :: "string list"
  body :: 'b

text \<open>
  The table library. The parser \<^verbatim>\<open>pd.read_table(path, delimiter=...)\<close> and
  \<^verbatim>\<open>DataFrame.reset_index()\<close> are not part of the repository: they are parameters.
\<close>

record 'b pandas =
  read_table :: "string \<Rightarrow> string \<Rightarrow> error + 'b dataframe"
  reset_index :: "'b dataframe \<Rightarrow> error + 'b dataframe"

text \<open>
  The assignment \<^verbatim>\<open>emb.columns = names\<close>. The table library refuses a list of labels
  whose length differs from the number of columns of the frame (a \<^verbatim>\<open>ValueError\<close>,
  "Length mismatch"); otherwise the labels are replaced and nothing else changes.
\<close>

definition set_columns :: "'b dataframe \<Rightarrow> string list \<Rightarrow> error + 'b dataframe" where
  "set_columns emb names =
     (if length names = length (columns emb) then Inr (emb\<lparr>columns := names\<rparr>)
      else Inl ValueError)"

text \<open>
  \<^verbatim>\<open>
  def load_embeddings(file_path, delim=' '):
      emb = pd.read_table(file_path, delimiter=' ')
      emb = emb.reset_index()
      emb.columns = ['node', 'x', 'y']
      return emb
  \<close>
  The parameter \<^verbatim>\<open>delim\<close> is accepted and never read: the parser is called with the
  literal one-space string.
\<close>

definition load_embeddings :: "'b pandas \<Rightarrow> string \<Rightarrow> string \<Rightarrow> error + 'b dataframe" where
  "load_embeddings pd file_path delim =
     (case read_table pd file_path '' '' of
        Inl err \<Rightarrow> Inl err
      | Inr emb \<Rightarrow>
          (case reset_index pd emb of
             Inl err \<Rightarrow> Inl err
           | Inr emb' \<Rightarrow> set_columns emb' [''node'', ''x'', ''y'']))"

section \<open>Evaluating a model\<close>

subsection \<open>The libraries evaluate_model calls\<close>

text \<open>
  Features are rows of type \<open>'x\<close>, labels have type \<open>'l\<close>, the state of the model object
  is an \<open>'m\<close>, what \<^verbatim>\<open>model.predict\<close> returns is a \<open>'p\<close>, and a score is an \<open>'s\<close>. The
  model and the toolkit are parameters: \<^verbatim>\<open>fit\<close> returns the state it leaves the model
  in, \<^verbatim>\<open>predict\<close> reads the model and leaves it as it is, \<^verbatim>\<open>train_test_split\<close> stands for
  the call with \<^verbatim>\<open>test_size=0.3\<close> (one outcome of its shuffle), \<^verbatim>\<open>argmax\<close> for
  \<^verbatim>\<open>np.argmax(_, axis=1)\<close> and \<^verbatim>\<open>f1_score\<close> for the call with \<^verbatim>\<open>average='macro'\<close>.
  \<^verbatim>\<open>max_epochs\<close> and \<^verbatim>\<open>cv\<close> are integers and \<^verbatim>\<open>report\<close> is a truth value.
\<close>

record ('x, 'l, 'm, 'p, 's) toolkit =
  train_test_split :: "'x list \<Rightarrow> 'l list \<Rightarrow> error + ('x list \<times> 'x list \<times> 'l list \<times> 'l list)"
  fit :: "'m \<Rightarrow> 'x list \<Rightarrow> 'l list \<Rightarrow> int \<Rightarrow> error + 'm"
  predict :: "'m \<Rightarrow> 'x list \<Rightarrow> error + 'p"
  argmax :: "'p \<Rightarrow> error + nat list"
  classification_report :: "'l list \<Rightarrow> nat list \<Rightarrow> error + string"
  f1_score :: "'l list \<Rightarrow> nat list \<Rightarrow> error + 's"

text \<open>The library calls, as they are made: a method call records the state of its object.\<close>

datatype ('x, 'l, 'm, 'p) call =
    TrainTestSplit "'x list" "'l list"
  | Fit 'm "'x list" "'l list" int
  | Predict 'm "'x list"
  | Argmax 'p
  | ClassificationReport "'l list" "nat list"
  | Print string
  | KFoldNew int
  | KFoldSplit "'x list"
  | F1Score "'l list" "nat list"

record ('x, 'l, 'm, 'p) session =
  model :: 'm
  calls :: "('x, 'l, 'm, 'p) call list"

definition library_call ::
  "('x, 'l, 'm, 'p) call \<Rightarrow> error + 'a \<Rightarrow> ('a, ('x, 'l, 'm, 'p) session) action" where
  "library_call c r = (\<lambda>s. (r, s\<lparr>calls := calls s @ [c]\<rparr>))"

text \<open>
  \<^verbatim>\<open>model.fit(Xs, ys, max_epochs=e)\<close>: the model object is changed in place. A fit that
  raises ends the function; the state it leaves the model in is not looked at again and is
  taken to be the state before the call.
\<close>

definition model_fit ::
  "('x, 'l, 'm, 'p, 's) toolkit \<Rightarrow> 'x list \<Rightarrow> 'l list \<Rightarrow> int \<Rightarrow>
     (unit, ('x, 'l, 'm, 'p) session) action" where
  "model_fit tk Xs ys e =
     (\<lambda>s. case fit tk (model s) Xs ys e of
        Inl err \<Rightarrow> (Inl err, s\<lparr>calls := calls s @ [Fit (model s) Xs ys e]\<rparr>)
      | Inr m' \<Rightarrow> (Inr (), s\<lparr>model := m', calls := calls s @ [Fit (model s) Xs ys e]\<rparr>))"

text \<open>\<^verbatim>\<open>np.argmax(model.predict(Xs), axis=1)\<close>\<close>

definition predict_labels ::
  "('x, 'l, 'm, 'p, 's) toolkit \<Rightarrow> 'x list \<Rightarrow> (nat list, ('x, 'l, 'm, 'p) session) action" where
  "predict_labels tk Xs =
     (\<lambda>s. bind (library_call (Predict (model s) Xs) (predict tk (model s) Xs))
             (\<lambda>p. library_call (Argmax p) (argmax tk p)) s)"

text \<open>
  \<^verbatim>\<open>A[idx]\<close> for an array \<open>A\<close> and an array \<open>idx\<close> of indices (none is negative here):
  the rows at these indices, in the order of \<open>idx\<close>; an index past the end raises.
\<close>

definition take_rows :: "'a list \<Rightarrow> nat list \<Rightarrow> error + 'a list" where
  "take_rows A idx =
     (if list_all (\<lambda>i. i < length A) idx then Inr (map (\<lambda>i. A ! i) idx) else Inl IndexError)"

subsection \<open>The K-fold splitter\<close>

text \<open>
  Modelled from the spec: the external toolkit's K-fold splitter
  (\<^verbatim>\<open>KFold(n_splits=cv)\<close> and \<^verbatim>\<open>kf.split(X)\<close> of \<^verbatim>\<open>sklearn.model_selection\<close>), which is
  not part of the repository. The data is partitioned into K subsets, each fold tests on
  one of them and trains on the K-1 others, rotating through all partitions. The subsets
  are consecutive blocks of indices in their order, the first \<open>n mod K\<close> of them one index
  longer than the others; fewer than two folds are refused when the splitter is made,
  more folds than samples when it is asked to split.
\<close>

definition KFold :: "int \<Rightarrow> error + nat" where
  "KFold n_splits = (if n_splits \<le> 1 then Inl ValueError else Inr (nat n_splits))"

definition fold_sizes :: "nat \<Rightarrow> nat \<Rightarrow> nat list" where
  "fold_sizes n_splits n_samples =
     map (\<lambda>j. n_samples div n_splits + (if j < n_samples mod n_splits then 1 else 0))
       [0..<n_splits]"

fun test_blocks :: "nat \<Rightarrow> nat list \<Rightarrow> nat list list" where
  "test_blocks current [] = []"
| "test_blocks current (fold_size # rest) =
     [current..<current + fold_size] # test_blocks (current + fold_size) rest"

definition KFold_split :: "nat \<Rightarrow> nat \<Rightarrow> error + (nat list \<times> nat list) list" where
  "KFold_split n_splits n_samples =
     (if n_splits > n_samples then Inl ValueError
      else Inr (map (\<lambda>test. (filter (\<lambda>i. i \<notin> set test) [0..<n_samples], test))
                  (test_blocks 0 (fold_sizes n_splits n_samples))))"

subsection \<open>evaluate_model\<close>

text \<open>
  \<^verbatim>\<open>
  def evaluate_model(model, X, y, max_epochs=10, cv=5, report=True):
      if report:
          X_train, X_test, y_train, y_test = train_test_split(X, y, test_size=0.3)
          model.fit(X_train, y_train, max_epochs=max_epochs)
          y_pred = np.argmax(model.predict(X_test), axis=1)
          print(classification_report(y_test, y_pred))
      kf = KFold(n_splits=cv)
      cv_scores = []
      for train, test in kf.split(X):
          model.fit(X[train], y[train], max_epochs=max_epochs)
          y_pred = np.argmax(model.predict(X[test]), axis=1)
          cv_scores.append(f1_score(y[test], y_pred, average='macro'))
      return cv_scores
  \<close>
  The body of the \<^verbatim>\<open>if\<close>:
\<close>

definition split_and_report ::
  "('x, 'l, 'm, 'p, 's) toolkit \<Rightarrow> 'x list \<Rightarrow> 'l list \<Rightarrow> int \<Rightarrow>
     (unit, ('x, 'l, 'm, 'p) session) action" where
  "split_and_report tk X y max_epochs =
     bind (library_call (TrainTestSplit X y) (train_test_split tk X y))
       (\<lambda>(X_train, X_test, y_train, y_test).
     bind (model_fit tk X_train y_train max_epochs) (\<lambda>_.
     bind (predict_labels tk X_test) (\<lambda>y_pred.
     bind (library_call (ClassificationReport y_test y_pred)
             (classification_report tk y_test y_pred)) (\<lambda>text.
     library_call (Print text) (Inr ())))))"

text \<open>The body of the \<^verbatim>\<open>for\<close> loop, returning the score it appends (the loop variables
  \<^verbatim>\<open>train\<close> and \<^verbatim>\<open>test\<close> are written \<open>train_idx\<close> and \<open>test_idx\<close>):\<close>

definition fold_body ::
  "('x, 'l, 'm, 'p, 's) toolkit \<Rightarrow> 'x list \<Rightarrow> 'l list \<Rightarrow> int \<Rightarrow> nat list \<Rightarrow> nat list \<Rightarrow>
     ('s, ('x, 'l, 'm, 'p) session) action" where
  "fold_body tk X y max_epochs train_idx test_idx =
     bind (lift (take_rows X train_idx)) (\<lambda>X_tr.
     bind (lift (take_rows y train_idx)) (\<lambda>y_tr.
     bind (model_fit tk X_tr y_tr max_epochs) (\<lambda>_.
     bind (lift (take_rows X test_idx)) (\<lambda>X_te.
     bind (predict_labels tk X_te) (\<lambda>y_pred.
     bind (lift (take_rows y test_idx)) (\<lambda>y_te.
     library_call (F1Score y_te y_pred) (f1_score tk y_te y_pred)))))))"

fun kfold_loop ::
  "('x, 'l, 'm, 'p, 's) toolkit \<Rightarrow> 'x list \<Rightarrow> 'l list \<Rightarrow> int \<Rightarrow> (nat list \<times> nat list) list \<Rightarrow>
     's list \<Rightarrow> ('s list, ('x, 'l, 'm, 'p) session) action" where
  "kfold_loop tk X y max_epochs [] cv_scores = returns cv_scores"
| "kfold_loop tk X y max_epochs ((train_idx, test_idx) # rest) cv_scores =
     bind (fold_body tk X y max_epochs train_idx test_idx) (\<lambda>score.
     kfold_loop tk X y max_epochs rest (cv_scores @ [score]))"

text \<open>
  The function itself. The model object is the \<open>model\<close> of the session it runs in;
  \<^verbatim>\<open>kf.split(X)\<close> takes the number of samples from \<open>X\<close> alone.
\<close>

definition evaluate_model ::
  "('x, 'l, 'm, 'p, 's) toolkit \<Rightarrow> 'x list \<Rightarrow> 'l list \<Rightarrow> int \<Rightarrow> int \<Rightarrow> bool \<Rightarrow>
     ('s list, ('x, 'l, 'm, 'p) session) action" where
  "evaluate_model tk X y max_epochs cv report =
     bind (if report then split_and_report tk X y max_epochs else returns ()) (\<lambda>_.
     bind (library_call (KFoldNew cv) (KFold cv)) (\<lambda>kf.
     bind (library_call (KFoldSplit X) (KFold_split kf (length X))) (\<lambda>folds.
     kfold_loop tk X y max_epochs folds [])))"

subsection \<open>Reading the sequence of calls\<close>

text \<open>The calls that only the split-and-report phase makes, and those only the K-fold
  phase makes; \<^verbatim>\<open>fit\<close>, \<^verbatim>\<open>predict\<close> and \<^verbatim>\<open>argmax\<close> are called in both.\<close>

fun is_Fit :: "('x, 'l, 'm, 'p) call \<Rightarrow> bool" where
  "is_Fit (Fit m Xs ys e) = True"
| "is_Fit _ = False"

fun report_call :: "('x, 'l, 'm, 'p) call \<Rightarrow> bool" where
  "report_call (TrainTestSplit Xs ys) = True"
| "report_call (ClassificationReport ys ps) = True"
| "report_call (Print text) = True"
| "report_call _ = False"

fun kfold_call :: "('x, 'l, 'm, 'p) call \<Rightarrow> bool" where
  "kfold_call (KFoldNew n) = True"
| "kfold_call (KFoldSplit Xs) = True"
| "kfold_call (F1Score ys ps) = True"
| "kfold_call _ = False"

text \<open>
  Replaying the \<^verbatim>\<open>fit\<close> calls of a sequence on a model in state \<open>m\<close>: every \<^verbatim>\<open>fit\<close> must
  have been received by the model in the state the one before left it in (the first by
  \<open>m\<close>), so no call met a fresh or re-initialised model; the result is the last state.
  A \<^verbatim>\<open>fit\<close> that raised left the state as it was.
\<close>

fun fits_chain ::
  "('x, 'l, 'm, 'p, 's) toolkit \<Rightarrow> 'm \<Rightarrow> ('x, 'l, 'm, 'p) call list \<Rightarrow> 'm option" where
  "fits_chain tk m [] = Some m"
| "fits_chain tk m (Fit m0 Xs ys e # cs) =
     (if m0 = m
      then (case fit tk m Xs ys e of Inl err \<Rightarrow> fits_chain tk m cs | Inr m' \<Rightarrow> fits_chain tk m' cs)
      else None)"
| "fits_chain tk m (c # cs) = fits_chain tk m cs"

text \<open>One fold, from the state \<open>m\<close> of the model before it to the state \<open>m'\<close> after it and
  the score it appends.\<close>

definition fold_scored ::
  "('x, 'l, 'm, 'p, 's) toolkit \<Rightarrow> 'x list \<Rightarrow> 'l list \<Rightarrow> int \<Rightarrow> nat list \<times> nat list \<Rightarrow>
     'm \<Rightarrow> 'm \<Rightarrow> 's \<Rightarrow> bool" where
  "fold_scored tk X y e fld m m' score \<longleftrightarrow>
     (\<exists>X_tr y_tr X_te y_te p y_pred.
        take_rows X (fst fld) = Inr X_tr \<and> take_rows y (fst fld) = Inr y_tr \<and>
        fit tk m X_tr y_tr e = Inr m' \<and>
        take_rows X (snd fld) = Inr X_te \<and> predict tk m' X_te = Inr p \<and>
        argmax tk p = Inr y_pred \<and> take_rows y (snd fld) = Inr y_te \<and>
        f1_score tk y_te y_pred = Inr score)"

section \<open>Sample libraries\<close>

text \<open>
  A table library for running \<^verbatim>\<open>load_embeddings\<close> on: it knows two files, one whose parsed
  table has two columns and one index level and one whose parsed table has two columns
  and two index levels; \<^verbatim>\<open>reset_index\<close> turns every index level into a column.
\<close>

definition pd0 :: "nat pandas" where
  "pd0 = \<lparr> read_table = (\<lambda>path delimiter.
             if path = ''vectors2.txt'' \<and> delimiter = '' ''
               then Inr \<lparr>columns = [''4'', ''2''], body = 1\<rparr>
             else if path = ''vectors3.txt'' \<and> delimiter = '' ''
               then Inr \<lparr>columns = [''4'', ''3''], body = 2\<rparr>
             else Inl (LibraryError ''FileNotFoundError'')),
           reset_index = (\<lambda>emb.
             Inr \<lparr>columns = replicate (body emb) ''index'' @ columns emb, body = 0\<rparr>) \<rparr>"

text \<open>
  Modelled from the spec: the delimited-text parsing of the external table library
  (\<^verbatim>\<open>pd.read_table\<close> and \<^verbatim>\<open>DataFrame.reset_index\<close>, which are not part of the repository),
  as far as the sample files below need it. A file is the list of its lines. The first
  line gives the column labels (taken as they stand, so the sample files have distinct
  ones); when every data line has \<open>k\<close> fields more than the first line, its first \<open>k\<close>
  fields are the index of the table and the other fields are its cells, and with \<open>k = 0\<close>
  the table gets the default index of row positions. An empty file and a file whose data
  lines do not all have the same number of fields, or have fewer fields than the first
  line, are refused here. \<^verbatim>\<open>reset_index\<close> turns every index level into a leading column, the
  default index too: one level becomes the column \<^verbatim>\<open>index\<close>, \<open>k > 1\<close> levels become
  \<^verbatim>\<open>level_0\<close>, ..., and the result has the default index. A cell is a field as it was read,
  or a row position.
\<close>

datatype cell = Position nat | Text string

datatype index = RangeIndex | LeadingFields nat

fun split_fields :: "char \<Rightarrow> string \<Rightarrow> string list" where
  "split_fields d [] = [[]]"
| "split_fields d (c # cs) =
     (if c = d then [] # split_fields d cs
      else (case split_fields d cs of [] \<Rightarrow> [[c]] | f # fs \<Rightarrow> (c # f) # fs))"

definition parse_lines :: "char \<Rightarrow> string list \<Rightarrow> error + (index \<times> cell list list) dataframe" where
  "parse_lines d lines =
     (case map (split_fields d) lines of
        [] \<Rightarrow> Inl (LibraryError ''EmptyDataError'')
      | header # rows \<Rightarrow>
          (let k = (case rows of [] \<Rightarrow> 0 | row # _ \<Rightarrow> length row - length header) in
           if list_all (\<lambda>row. length row = length header + k) rows
           then Inr \<lparr>columns = header,
                     body = (if k = 0 then RangeIndex else LeadingFields k, map (map Text) rows)\<rparr>
           else Inl (LibraryError ''ParserError'')))"

fun decimal :: "nat \<Rightarrow> string" where
  "decimal n =
     (if n < 10 then [''0123456789'' ! n]
      else decimal (n div 10) @ [''0123456789'' ! (n mod 10)])"

declare decimal.simps [simp del]

definition level_labels :: "nat \<Rightarrow> string list" where
  "level_labels k =
     (if k = 1 then [''index''] else map (\<lambda>i. ''level_'' @ decimal i) [0..<k])"

definition index_to_columns ::
  "(index \<times> cell list list) dataframe \<Rightarrow> error + (index \<times> cell list list) dataframe" where
  "index_to_columns emb =
     (case body emb of
        (RangeIndex, rows) \<Rightarrow>
          Inr \<lparr>columns = ''index'' # columns emb,
               body = (RangeIndex, map (\<lambda>(i, row). Position i # row) (enumerate 0 rows))\<rparr>
      | (LeadingFields k, rows) \<Rightarrow>
          Inr \<lparr>columns = level_labels k @ columns emb, body = (RangeIndex, rows)\<rparr>)"

text \<open>
  The table library over a file system: a path that is not there and a delimiter that is
  not one character are refused.
\<close>

definition pandas_on :: "(string \<rightharpoonup> string list) \<Rightarrow> (index \<times> cell list list) pandas" where
  "pandas_on fs =
     \<lparr> read_table = (\<lambda>path delimiter.
         case fs path of
           None \<Rightarrow> Inl (LibraryError ''FileNotFoundError'')
         | Some lines \<Rightarrow>
             (case delimiter of [d] \<Rightarrow> parse_lines d lines | _ \<Rightarrow> Inl ValueError)),
       reset_index = index_to_columns \<rparr>"

text \<open>
  Embedding files as \<^verbatim>\<open>train_embeddings\<close> has them written (the word2vec text format): a
  first line with the number of nodes and the dimension, then one line per node, its label
  followed by its coordinates. The dimension of such a file is the number of coordinates
  on its first node line. Three files: of dimension one, two and three.
\<close>

definition coordinates_per_line :: "string list \<Rightarrow> nat" where
  "coordinates_per_line lines =
     (case lines of header # row # rest \<Rightarrow> length (split_fields CHR '' '' row) - 1 | _ \<Rightarrow> 0)"

definition vector_files :: "string \<rightharpoonup> string list" where
  "vector_files =
     [''vectors1.txt'' \<mapsto> [''2 1'', ''a 0.5'', ''b 0.25''],
      ''vectors2.txt'' \<mapsto> [''3 2'', ''a 0.5 0.1'', ''b 0.25 0.3'', ''c 0.7 0.9''],
      ''vectors3.txt'' \<mapsto> [''2 3'', ''a 0.5 0.1 0.7'', ''b 0.25 0.3 0.9'']]"

text \<open>
  An embedding library for running \<^verbatim>\<open>train_embeddings\<close> on: a learning rate is a fraction,
  a reader is the path and the delimiter it was made with, the state of a trainer is the
  number of epochs it was trained for, and one relation file is missing.
\<close>

definition g0 :: "(int \<times> int, string \<times> string, int) gensim" where
  "g0 = \<lparr> PoincareRelations = (\<lambda>path delimiter.
             if path = ''missing.tsv'' then Inl (LibraryError ''FileNotFoundError'')
             else Inr (path, delimiter)),
           PoincareModel = (\<lambda>relations dim alpha burn_in burn_in_alpha workers negative. Inr 0),
           train = (\<lambda>m epochs print_every batch_size. Inr (m + epochs)),
           save_word2vec_format = (\<lambda>m path. Inr ''1 2'') \<rparr>"

text \<open>
  A toolkit and a model for running \<^verbatim>\<open>evaluate_model\<close> on: features and labels are
  numbers, the state of the model is the number of rows it was fitted on, a prediction is
  one row of two class scores per sample, \<^verbatim>\<open>argmax\<close> takes the first index of the greatest
  score of each row, the split keeps the order and puts the first seven tenths in the
  train part, and the score counts the labels predicted right. None of them raises.
\<close>

definition argmax_row :: "nat list \<Rightarrow> nat" where
  "argmax_row row = length (takeWhile (\<lambda>v. v \<noteq> Max (set row)) row)"

definition tk0 :: "(nat, nat, nat, nat list list, nat) toolkit" where
  "tk0 = \<lparr> train_test_split = (\<lambda>Xs ys.
             Inr (take (length Xs * 7 div 10) Xs, drop (length Xs * 7 div 10) Xs,
                  take (length Xs * 7 div 10) ys, drop (length Xs * 7 div 10) ys)),
           fit = (\<lambda>m Xs ys e. Inr (m + length Xs)),
           predict = (\<lambda>m Xs. Inr (map (\<lambda>x. [m, x]) Xs)),
           argmax = (\<lambda>p. Inr (map argmax_row p)),
           classification_report = (\<lambda>ys ps. Inr ''report''),
           f1_score = (\<lambda>ys ps. Inr (length (filter (\<lambda>(a, b). a = b) (zip ys ps)))) \<rparr>"

section \<open>Properties of load_embeddings\<close>

text \<open>
  Claim C7. For every file path and any two values \<open>d1\<close>, \<open>d2\<close> of the \<^verbatim>\<open>delim\<close>
  parameter, \<^verbatim>\<open>load_embeddings\<close> returns the same result (the same frame or the same
  exception), and that result is the one obtained by parsing with the single-space
  delimiter, resetting the index and relabelling the columns.
\<close>

theorem load_embeddings_ignores_delim:
  "load_embeddings pd file_path d1 = load_embeddings pd file_path d2 \<and>
   load_embeddings pd file_path d1 =
     (case read_table pd file_path [CHR '' ''] of
        Inl err \<Rightarrow> Inl err
      | Inr emb \<Rightarrow>
          (case reset_index pd emb of
             Inl err \<Rightarrow> Inl err
           | Inr emb' \<Rightarrow> set_columns emb' [''node'', ''x'', ''y'']))"
  by (simp add: load_embeddings_def)

theorem load_embeddings_ignores_delim_witness:
  "load_embeddings pd0 ''vectors2.txt'' '','' = load_embeddings pd0 ''vectors2.txt'' '';'' \<and>
   load_embeddings pd0 ''vectors2.txt'' '','' = Inr \<lparr>columns = [''node'', ''x'', ''y''], body = 0\<rparr>"
proof -
  have l: "load_embeddings pd0 ''vectors2.txt'' '','' =
             Inr \<lparr>columns = [''node'', ''x'', ''y''], body = 0\<rparr>"
    by (simp add: load_embeddings_def pd0_def set_columns_def)
  from load_embeddings_ignores_delim[of pd0 "''vectors2.txt''" "'',''" "'';''"]
  have "load_embeddings pd0 ''vectors2.txt'' '','' = load_embeddings pd0 ''vectors2.txt'' '';''"
    by (rule conjunct1)
  with l show ?thesis by simp
qed

text \<open>
  Claim C8, as amended. Whenever \<^verbatim>\<open>load_embeddings\<close> returns, the frame it returns has
  exactly the columns \<^verbatim>\<open>['node', 'x', 'y']\<close>; it returns exactly when the parser and
  \<^verbatim>\<open>reset_index\<close> succeed and the table after \<^verbatim>\<open>reset_index\<close> has three columns, whatever
  these columns hold, and it raises \<^verbatim>\<open>ValueError\<close> whenever that table does not have exactly
  three columns.
\<close>

theorem load_embeddings_three_columns:
  "(load_embeddings pd file_path delim = Inr emb \<longleftrightarrow>
      (\<exists>t t'. read_table pd file_path '' '' = Inr t \<and> reset_index pd t = Inr t' \<and>
         length (columns t') = 3 \<and> emb = t'\<lparr>columns := [''node'', ''x'', ''y'']\<rparr>)) \<and>
   (load_embeddings pd file_path delim = Inr emb \<longrightarrow> columns emb = [''node'', ''x'', ''y'']) \<and>
   (\<forall>t t'. read_table pd file_path '' '' = Inr t \<and> reset_index pd t = Inr t' \<and>
        length (columns t') \<noteq> 3 \<longrightarrow> load_embeddings pd file_path delim = Inl ValueError)"
  by (auto simp: load_embeddings_def set_columns_def split: sum.splits)

theorem load_embeddings_three_columns_witness:
  "coordinates_per_line [''3 2'', ''a 0.5 0.1'', ''b 0.25 0.3'', ''c 0.7 0.9''] = 2 \<and>
   load_embeddings (pandas_on vector_files) ''vectors2.txt'' '','' =
     Inr \<lparr>columns = [''node'', ''x'', ''y''],
          body = (RangeIndex, [[Text ''a'', Text ''0.5'', Text ''0.1''],
                               [Text ''b'', Text ''0.25'', Text ''0.3''],
                               [Text ''c'', Text ''0.7'', Text ''0.9'']])\<rparr> \<and>
   columns \<lparr>columns = [''node'', ''x'', ''y''],
            body = (RangeIndex, [[Text ''a'', Text ''0.5'', Text ''0.1''],
                                 [Text ''b'', Text ''0.25'', Text ''0.3''],
                                 [Text ''c'', Text ''0.7'', Text ''0.9'']])\<rparr> =
     [''node'', ''x'', ''y''] \<and>
   read_table (pandas_on vector_files) ''vectors3.txt'' '' '' =
     Inr \<lparr>columns = [''2'', ''3''],
          body = (LeadingFields 2, [[Text ''a'', Text ''0.5'', Text ''0.1'', Text ''0.7''],
                                    [Text ''b'', Text ''0.25'', Text ''0.3'', Text ''0.9'']])\<rparr> \<and>
   reset_index (pandas_on vector_files)
     \<lparr>columns = [''2'', ''3''],
      body = (LeadingFields 2, [[Text ''a'', Text ''0.5'', Text ''0.1'', Text ''0.7''],
                                [Text ''b'', Text ''0.25'', Text ''0.3'', Text ''0.9'']])\<rparr> =
     Inr \<lparr>columns = [''level_0'', ''level_1'', ''2'', ''3''],
          body = (RangeIndex, [[Text ''a'', Text ''0.5'', Text ''0.1'', Text ''0.7''],
                               [Text ''b'', Text ''0.25'', Text ''0.3'', Text ''0.9'']])\<rparr> \<and>
   load_embeddings (pandas_on vector_files) ''vectors3.txt'' '','' = Inl ValueError"
proof -
  let ?pd = "pandas_on vector_files"
  let ?emb2 = "\<lparr>columns = [''node'', ''x'', ''y''],
          body = (RangeIndex, [[Text ''a'', Text ''0.5'', Text ''0.1''],
                               [Text ''b'', Text ''0.25'', Text ''0.3''],
                               [Text ''c'', Text ''0.7'', Text ''0.9'']])\<rparr>"
  let ?t3 = "\<lparr>columns = [''2'', ''3''],
          body = (LeadingFields 2, [[Text ''a'', Text ''0.5'', Text ''0.1'', Text ''0.7''],
                                    [Text ''b'', Text ''0.25'', Text ''0.3'', Text ''0.9'']])\<rparr>"
  let ?t3' = "\<lparr>columns = [''level_0'', ''level_1'', ''2'', ''3''],
          body = (RangeIndex, [[Text ''a'', Text ''0.5'', Text ''0.1'', Text ''0.7''],
                               [Text ''b'', Text ''0.25'', Text ''0.3'', Text ''0.9'']])\<rparr>"
  have d: "coordinates_per_line [''3 2'', ''a 0.5 0.1'', ''b 0.25 0.3'', ''c 0.7 0.9''] = 2"
    by code_simp
  have r: "read_table ?pd ''vectors3.txt'' '' '' = Inr ?t3" by code_simp
  have i: "reset_index ?pd ?t3 = Inr ?t3'" by code_simp
  have l: "load_embeddings ?pd ''vectors2.txt'' '','' = Inr ?emb2" by code_simp
  have n: "length (columns ?t3') \<noteq> 3" by simp
  note two = load_embeddings_three_columns[of ?pd "''vectors2.txt''" "'',''" ?emb2]
  note three = load_embeddings_three_columns[of ?pd "''vectors3.txt''" "'',''" ?emb2]
  from two[THEN conjunct2, THEN conjunct1, rule_format, OF l]
  have c: "columns ?emb2 = [''node'', ''x'', ''y'']" .
  from r i n have "read_table ?pd ''vectors3.txt'' '' '' = Inr ?t3 \<and>
      reset_index ?pd ?t3 = Inr ?t3' \<and> length (columns ?t3') \<noteq> 3"
    by (intro conjI)
  from three[THEN conjunct2, THEN conjunct2, rule_format, OF this]
  have e: "load_embeddings ?pd ''vectors3.txt'' '','' = Inl ValueError" .
  show ?thesis
  proof (intro conjI)
    show "coordinates_per_line [''3 2'', ''a 0.5 0.1'', ''b 0.25 0.3'', ''c 0.7 0.9''] = 2"
      by (fact d)
    show "load_embeddings ?pd ''vectors2.txt'' '','' = Inr ?emb2" by (fact l)
    show "columns ?emb2 = [''node'', ''x'', ''y'']" by (fact c)
    show "read_table ?pd ''vectors3.txt'' '' '' = Inr ?t3" by (fact r)
    show "reset_index ?pd ?t3 = Inr ?t3'" by (fact i)
    show "load_embeddings ?pd ''vectors3.txt'' '','' = Inl ValueError" by (fact e)
  qed
qed

text \<open>
  A file of dimension one is loaded as well: its lines have two fields, as many as the
  first line, so the parsed table has two columns and the default index, \<^verbatim>\<open>reset_index\<close>
  makes a third column of the row positions, and the three labels fit. The column \<^verbatim>\<open>node\<close>
  then holds the row positions, \<^verbatim>\<open>x\<close> the node labels and \<^verbatim>\<open>y\<close> the one coordinate.
\<close>

theorem load_embeddings_three_columns_counterexample:
  "vector_files ''vectors1.txt'' = Some [''2 1'', ''a 0.5'', ''b 0.25''] \<and>
   coordinates_per_line [''2 1'', ''a 0.5'', ''b 0.25''] = 1 \<and>
   read_table (pandas_on vector_files) ''vectors1.txt'' '' '' =
     Inr \<lparr>columns = [''2'', ''1''],
          body = (RangeIndex, [[Text ''a'', Text ''0.5''], [Text ''b'', Text ''0.25'']])\<rparr> \<and>
   load_embeddings (pandas_on vector_files) ''vectors1.txt'' '' '' =
     Inr \<lparr>columns = [''node'', ''x'', ''y''],
          body = (RangeIndex, [[Position 0, Text ''a'', Text ''0.5''],
                               [Position 1, Text ''b'', Text ''0.25'']])\<rparr>"
proof (intro conjI)
  show "vector_files ''vectors1.txt'' = Some [''2 1'', ''a 0.5'', ''b 0.25'']"
    by (simp add: vector_files_def)
  show "coordinates_per_line [''2 1'', ''a 0.5'', ''b 0.25''] = 1"
    by code_simp
  show "read_table (pandas_on vector_files) ''vectors1.txt'' '' '' =
     Inr \<lparr>columns = [''2'', ''1''],
          body = (RangeIndex, [[Text ''a'', Text ''0.5''], [Text ''b'', Text ''0.25'']])\<rparr>"
    by code_simp
  show "load_embeddings (pandas_on vector_files) ''vectors1.txt'' '' '' =
     Inr \<lparr>columns = [''node'', ''x'', ''y''],
          body = (RangeIndex, [[Position 0, Text ''a'', Text ''0.5''],
                               [Position 1, Text ''b'', Text ''0.25'']])\<rparr>"
    by code_simp
qed

section \<open>Properties of train_embeddings\<close>

lemma gensim_call_eq:
  "gensim_call c r w = (r, w\<lparr>gensim_calls := gensim_calls w @ [c]\<rparr>)"
  by (simp add: gensim_call_def)

text \<open>
  Claim C2. For every input path, delimiter, output path and every value of the named
  parameters, \<^verbatim>\<open>train_embeddings\<close> makes the relations reader with exactly that path and
  delimiter, then the trainer on that reader with \<^verbatim>\<open>size\<close>, \<^verbatim>\<open>alpha\<close>, \<^verbatim>\<open>burn_in\<close>,
  \<^verbatim>\<open>burn_in_alpha\<close>, \<^verbatim>\<open>workers\<close> and \<^verbatim>\<open>negative\<close> unchanged, then trains it with \<^verbatim>\<open>epochs\<close>,
  \<^verbatim>\<open>print_every\<close> and \<^verbatim>\<open>batch_size\<close> unchanged, then saves the trained vectors at the
  output path; each call is made as soon as the one before it has returned, and the
  function returns exactly when all four have, leaving the library's text at the path.
\<close>

theorem train_embeddings_forwards:
  "gensim_calls (snd (train_embeddings g input_path delimiter output_path dim alpha burn_in
       burn_in_alpha workers negative epochs print_every batch_size w)) =
     gensim_calls w @
       NewPoincareRelations input_path delimiter #
       (case PoincareRelations g input_path delimiter of
          Inl err \<Rightarrow> []
        | Inr relations \<Rightarrow>
            NewPoincareModel relations dim alpha burn_in burn_in_alpha workers negative #
            (case PoincareModel g relations dim alpha burn_in burn_in_alpha workers negative of
               Inl err \<Rightarrow> []
             | Inr m \<Rightarrow>
                 Train m epochs print_every batch_size #
                 (case train g m epochs print_every batch_size of
                    Inl err \<Rightarrow> []
                  | Inr m' \<Rightarrow> [SaveWord2vecFormat m' output_path]))) \<and>
   (train_embeddings g input_path delimiter output_path dim alpha burn_in
       burn_in_alpha workers negative epochs print_every batch_size w = (Inr u, w') \<longleftrightarrow>
     (\<exists>relations m m' text.
        PoincareRelations g input_path delimiter = Inr relations \<and>
        PoincareModel g relations dim alpha burn_in burn_in_alpha workers negative = Inr m \<and>
        train g m epochs print_every batch_size = Inr m' \<and>
        save_word2vec_format g m' output_path = Inr text \<and>
        w' = w\<lparr>files := (files w)(output_path \<mapsto> text),
               gensim_calls := gensim_calls w @
                 [NewPoincareRelations input_path delimiter,
                  NewPoincareModel relations dim alpha burn_in burn_in_alpha workers negative,
                  Train m epochs print_every batch_size,
                  SaveWord2vecFormat m' output_path]\<rparr>))"
proof (intro conjI)
  show "gensim_calls (snd (train_embeddings g input_path delimiter output_path dim alpha burn_in
       burn_in_alpha workers negative epochs print_every batch_size w)) =
     gensim_calls w @
       NewPoincareRelations input_path delimiter #
       (case PoincareRelations g input_path delimiter of
          Inl err \<Rightarrow> []
        | Inr relations \<Rightarrow>
            NewPoincareModel relations dim alpha burn_in burn_in_alpha workers negative #
            (case PoincareModel g relations dim alpha burn_in burn_in_alpha workers negative of
               Inl err \<Rightarrow> []
             | Inr m \<Rightarrow>
                 Train m epochs print_every batch_size #
                 (case train g m epochs print_every batch_size of
                    Inl err \<Rightarrow> []
                  | Inr m' \<Rightarrow> [SaveWord2vecFormat m' output_path])))"
    by (simp add: train_embeddings_def bind_def gensim_call_eq save_vectors_def
          split: sum.splits)
next
  show "train_embeddings g input_path delimiter output_path dim alpha burn_in
       burn_in_alpha workers negative epochs print_every batch_size w = (Inr u, w') \<longleftrightarrow>
     (\<exists>relations m m' text.
        PoincareRelations g input_path delimiter = Inr relations \<and>
        PoincareModel g relations dim alpha burn_in burn_in_alpha workers negative = Inr m \<and>
        train g m epochs print_every batch_size = Inr m' \<and>
        save_word2vec_format g m' output_path = Inr text \<and>
        w' = w\<lparr>files := (files w)(output_path \<mapsto> text),
               gensim_calls := gensim_calls w @
                 [NewPoincareRelations input_path delimiter,
                  NewPoincareModel relations dim alpha burn_in burn_in_alpha workers negative,
                  Train m epochs print_every batch_size,
                  SaveWord2vecFormat m' output_path]\<rparr>)"
    by (auto simp: train_embeddings_def bind_def gensim_call_eq save_vectors_def
          split: sum.splits)
qed

theorem train_embeddings_forwards_witness:
  "train_embeddings g0 ''edges.tsv'' '','' ''out.txt'' 2 (1, 10) 10 (1, 100) 1 10 100 500 10
       \<lparr>files = Map.empty, gensim_calls = []\<rparr> =
     (Inr (), \<lparr>files = [''out.txt'' \<mapsto> ''1 2''],
               gensim_calls =
                 [NewPoincareRelations ''edges.tsv'' '','',
                  NewPoincareModel (''edges.tsv'', '','') 2 (1, 10) 10 (1, 100) 1 10,
                  Train 0 100 500 10, SaveWord2vecFormat 100 ''out.txt'']\<rparr>) \<and>
   gensim_calls (snd (train_embeddings g0 ''missing.tsv'' '','' ''out.txt'' 2 (1, 10) 10 (1, 100)
       1 10 100 500 10 \<lparr>files = Map.empty, gensim_calls = []\<rparr>)) =
     [NewPoincareRelations ''missing.tsv'' '','']"
proof -
  let ?w = "\<lparr>files = Map.empty, gensim_calls = []\<rparr> :: (int \<times> int, string \<times> string, int) world"
  have "PoincareRelations g0 ''edges.tsv'' '','' = Inr (''edges.tsv'', '','')"
       "PoincareModel g0 (''edges.tsv'', '','') 2 (1, 10) 10 (1, 100) 1 10 = Inr 0"
       "train g0 0 100 500 10 = Inr 100"
       "save_word2vec_format g0 100 ''out.txt'' = Inr ''1 2''"
    by (simp_all add: g0_def)
  then have "train_embeddings g0 ''edges.tsv'' '','' ''out.txt'' 2 (1, 10) 10 (1, 100) 1 10 100 500 10 ?w =
     (Inr (), ?w\<lparr>files := (files ?w)(''out.txt'' \<mapsto> ''1 2''),
               gensim_calls := gensim_calls ?w @
                 [NewPoincareRelations ''edges.tsv'' '','',
                  NewPoincareModel (''edges.tsv'', '','') 2 (1, 10) 10 (1, 100) 1 10,
                  Train 0 100 500 10, SaveWord2vecFormat 100 ''out.txt'']\<rparr>)"
    using train_embeddings_forwards[of g0 "''edges.tsv''" "'',''" "''out.txt''" 2 "(1, 10)" 10
        "(1, 100)" 1 10 100 500 10 ?w "()"] by blast
  moreover have "PoincareRelations g0 ''missing.tsv'' '','' = Inl (LibraryError ''FileNotFoundError'')"
    by (simp add: g0_def)
  then have "gensim_calls (snd (train_embeddings g0 ''missing.tsv'' '','' ''out.txt'' 2 (1, 10) 10 (1, 100)
       1 10 100 500 10 ?w)) = [NewPoincareRelations ''missing.tsv'' '','']"
    using train_embeddings_forwards[of g0 "''missing.tsv''" "'',''" "''out.txt''" 2 "(1, 10)" 10
        "(1, 100)" 1 10 100 500 10 ?w] by simp
  ultimately show ?thesis by simp
qed

text \<open>
  Claim C9. A call of \<^verbatim>\<open>train_embeddings\<close> returns \<^verbatim>\<open>None\<close> when it returns; whatever its
  outcome, every file but the one at the output path is as it was, and the only call that
  stores a file stores it at the output path; when it returns, the file at the output
  path holds the saved vectors.
\<close>

theorem train_embeddings_frame:
  assumes "train_embeddings g input_path delimiter output_path dim alpha burn_in
       burn_in_alpha workers negative epochs print_every batch_size w = (r, w')"
  shows "(r = Inr () \<or> (\<exists>err. r = Inl err)) \<and>
         (\<forall>p. p \<noteq> output_path \<longrightarrow> files w' p = files w p) \<and>
         (\<exists>new. gensim_calls w' = gensim_calls w @ new \<and> list_all (saves_to output_path) new) \<and>
         (r = Inr () \<longrightarrow>
            (\<exists>m text. save_word2vec_format g m output_path = Inr text \<and>
               files w' = (files w)(output_path \<mapsto> text)))"
  using assms
  by (cases r)
     (fastforce simp: train_embeddings_def bind_def gensim_call_eq save_vectors_def
        split: sum.splits)+


theorem train_embeddings_frame_witness:
  "train_embeddings g0 ''edges.tsv'' '','' ''out.txt'' 2 (1, 10) 10 (1, 100) 1 10 100 500 10
       \<lparr>files = [''edges.tsv'' \<mapsto> ''a,b''], gensim_calls = []\<rparr> =
     (Inr (), \<lparr>files = [''edges.tsv'' \<mapsto> ''a,b'', ''out.txt'' \<mapsto> ''1 2''],
               gensim_calls =
                 [NewPoincareRelations ''edges.tsv'' '','',
                  NewPoincareModel (''edges.tsv'', '','') 2 (1, 10) 10 (1, 100) 1 10,
                  Train 0 100 500 10, SaveWord2vecFormat 100 ''out.txt'']\<rparr>) \<and>
   [''edges.tsv'' \<mapsto> ''a,b'', ''out.txt'' \<mapsto> ''1 2''] ''edges.tsv'' =
     [''edges.tsv'' \<mapsto> ''a,b''] ''edges.tsv'' \<and>
   (\<exists>m text. save_word2vec_format g0 m ''out.txt'' = Inr text \<and>
      [''edges.tsv'' \<mapsto> ''a,b'', ''out.txt'' \<mapsto> ''1 2''] =
        [''edges.tsv'' \<mapsto> ''a,b''](''out.txt'' \<mapsto> text))"
proof -
  let ?w = "\<lparr>files = [''edges.tsv'' \<mapsto> ''a,b''], gensim_calls = []\<rparr>
              :: (int \<times> int, string \<times> string, int) world"
  let ?w' = "\<lparr>files = [''edges.tsv'' \<mapsto> ''a,b'', ''out.txt'' \<mapsto> ''1 2''],
               gensim_calls =
                 [NewPoincareRelations ''edges.tsv'' '','',
                  NewPoincareModel (''edges.tsv'', '','') 2 (1, 10) 10 (1, 100) 1 10,
                  Train 0 100 500 10, SaveWord2vecFormat 100 ''out.txt'']\<rparr>
              :: (int \<times> int, string \<times> string, int) world"
  have run: "train_embeddings g0 ''edges.tsv'' '','' ''out.txt'' 2 (1, 10) 10 (1, 100) 1 10 100 500 10 ?w =
     (Inr (), ?w')"
    by (simp add: train_embeddings_def bind_def gensim_call_def save_vectors_def g0_def)
  note f = train_embeddings_frame[OF run]
  from f have "\<forall>p. p \<noteq> ''out.txt'' \<longrightarrow> files ?w' p = files ?w p" by blast
  then have a: "files ?w' ''edges.tsv'' = files ?w ''edges.tsv''" by simp
  from f have b: "\<exists>m text. save_word2vec_format g0 m ''out.txt'' = Inr text \<and>
               files ?w' = (files ?w)(''out.txt'' \<mapsto> text)" by blast
  from run a b show ?thesis by simp
qed

section \<open>The K-fold splitter\<close>

lemma length_test_blocks: "length (test_blocks c sizes) = length sizes"
  by (induction sizes arbitrary: c) auto

lemma concat_test_blocks: "concat (test_blocks c sizes) = [c..<c + sum_list sizes]"
proof (induction sizes arbitrary: c)
  case Nil
  show ?case by simp
next
  case (Cons sz rest)
  have "[c..<c + sz] @ [c + sz..<c + sz + sum_list rest] = [c..<c + sz + sum_list rest]"
    by (metis le_add1 upt_add_eq_append)
  with Cons show ?case by (simp add: add.assoc)
qed

lemma nth_test_blocks:
  "j < length sizes \<Longrightarrow>
   test_blocks c sizes ! j = [c + sum_list (take j sizes)..<c + sum_list (take (Suc j) sizes)]"
proof (induction sizes arbitrary: c j)
  case Nil
  then show ?case by simp
next
  case (Cons sz rest)
  show ?case
  proof (cases j)
    case 0
    then show ?thesis by simp
  next
    case (Suc k)
    with Cons.prems have "k < length rest" by simp
    from Cons.IH[OF this, of "c + sz"] Suc show ?thesis by (simp add: add.assoc)
  qed
qed

lemma sum_list_take_mono:
  "j \<le> k \<Longrightarrow> sum_list (take j (sizes :: nat list)) \<le> sum_list (take k sizes)"
proof (induction sizes arbitrary: j k)
  case Nil
  then show ?case by simp
next
  case (Cons sz rest)
  then show ?case by (cases j; cases k) auto
qed

lemma sum_list_fold_sizes_aux:
  "sum_list (map (\<lambda>j. a + (if j < r then 1 else 0)) [0..<k]) = k * a + min k r"
  by (induction k) auto

lemma sum_list_fold_sizes: "0 < k \<Longrightarrow> sum_list (fold_sizes k n) = n"
proof -
  assume "0 < k"
  then have "min k (n mod k) = n mod k" by simp
  then show ?thesis
    unfolding fold_sizes_def sum_list_fold_sizes_aux by simp
qed

lemma length_fold_sizes: "length (fold_sizes k n) = k"
  by (simp add: fold_sizes_def)

lemma test_blocks_unique:
  assumes "j < length sizes" "k < length sizes"
    and "i \<in> set (test_blocks c sizes ! j)" "i \<in> set (test_blocks c sizes ! k)"
  shows "j = k"
proof (rule ccontr)
  assume "j \<noteq> k"
  have bj: "c + sum_list (take j sizes) \<le> i" "i < c + sum_list (take (Suc j) sizes)"
    using assms(1,3) by (simp_all add: nth_test_blocks)
  have bk: "c + sum_list (take k sizes) \<le> i" "i < c + sum_list (take (Suc k) sizes)"
    using assms(2,4) by (simp_all add: nth_test_blocks)
  from \<open>j \<noteq> k\<close> consider "Suc j \<le> k" | "Suc k \<le> j" by linarith
  then show False
  proof cases
    case 1
    from sum_list_take_mono[OF this, of sizes] bj(2) bk(1) show False by linarith
  next
    case 2
    from sum_list_take_mono[OF this, of sizes] bk(2) bj(1) show False by linarith
  qed
qed

lemma test_blocks_cover:
  assumes "c \<le> i" "i < c + sum_list sizes"
  shows "\<exists>j<length sizes. i \<in> set (test_blocks c sizes ! j)"
proof -
  from assms have "i \<in> set (concat (test_blocks c sizes))"
    by (simp add: concat_test_blocks)
  then obtain b where "b \<in> set (test_blocks c sizes)" "i \<in> set b" by auto
  then show ?thesis by (auto simp: in_set_conv_nth length_test_blocks)
qed

lemma test_blocks_within:
  assumes "j < length sizes" "i \<in> set (test_blocks c sizes ! j)"
  shows "c \<le> i \<and> i < c + sum_list sizes"
proof -
  from assms have "i \<in> set (concat (test_blocks c sizes))"
    by (auto simp: length_test_blocks intro!: bexI[of _ "test_blocks c sizes ! j"])
  then show ?thesis by (simp add: concat_test_blocks)
qed

lemma KFold_Inr: "KFold cv = Inr kf \<longleftrightarrow> 2 \<le> cv \<and> kf = nat cv"
  by (auto simp: KFold_def)

lemma KFold_split_Inr:
  "KFold_split kf n = Inr folds \<longleftrightarrow>
     kf \<le> n \<and>
     folds = map (\<lambda>test. (filter (\<lambda>i. i \<notin> set test) [0..<n], test))
               (test_blocks 0 (fold_sizes kf n))"
  by (auto simp: KFold_split_def)

lemma KFold_split_partition:
  assumes "0 < kf" and "KFold_split kf n = Inr folds"
  shows "length folds = kf"
    and "concat (map snd folds) = [0..<n]"
    and "\<And>i. i < n \<Longrightarrow> \<exists>!j. j < length folds \<and> i \<in> set (snd (folds ! j))"
    and "\<And>j. j < length folds \<Longrightarrow> set (fst (folds ! j)) = {0..<n} - set (snd (folds ! j))"
    and "\<And>j. j < length folds \<Longrightarrow> set (snd (folds ! j)) \<subseteq> {0..<n}"
proof -
  let ?sizes = "fold_sizes kf n"
  let ?blocks = "test_blocks 0 ?sizes"
  from assms(2) have folds: "folds = map (\<lambda>test. (filter (\<lambda>i. i \<notin> set test) [0..<n], test)) ?blocks"
    by (simp add: KFold_split_Inr)
  have len: "length ?blocks = kf" by (simp add: length_test_blocks length_fold_sizes)
  have total: "sum_list ?sizes = n" using assms(1) by (rule sum_list_fold_sizes)
  show L: "length folds = kf" using folds len by simp
  have snd_nth: "snd (folds ! j) = ?blocks ! j" if "j < kf" for j
    using that folds len by simp
  have "map snd folds = ?blocks" unfolding folds by (simp add: comp_def)
  then show "concat (map snd folds) = [0..<n]"
    using total by (simp add: concat_test_blocks)
  show "\<exists>!j. j < length folds \<and> i \<in> set (snd (folds ! j))" if "i < n" for i
  proof -
    from that total test_blocks_cover[of 0 i ?sizes]
    obtain j where j: "j < kf" "i \<in> set (?blocks ! j)"
      by (auto simp: length_fold_sizes)
    show ?thesis
    proof (rule ex1I[of _ j])
      show "j < length folds \<and> i \<in> set (snd (folds ! j))" using j L snd_nth by simp
    next
      fix k assume "k < length folds \<and> i \<in> set (snd (folds ! k))"
      then have "k < kf" "i \<in> set (?blocks ! k)" using L snd_nth by auto
      with j show "k = j"
        using test_blocks_unique[of k ?sizes j i 0] by (simp add: length_fold_sizes)
    qed
  qed
  show "set (fst (folds ! j)) = {0..<n} - set (snd (folds ! j))" if "j < length folds" for j
    using that folds len by auto
  show "set (snd (folds ! j)) \<subseteq> {0..<n}" if "j < length folds" for j
  proof
    fix i assume "i \<in> set (snd (folds ! j))"
    with that L snd_nth have "i \<in> set (?blocks ! j)" "j < length ?sizes"
      by (simp_all add: length_fold_sizes)
    from test_blocks_within[OF this(2,1)] total show "i \<in> {0..<n}" by simp
  qed
qed

text \<open>
  Claim C3. In every call of \<^verbatim>\<open>evaluate_model\<close> in which the splitter \<^verbatim>\<open>KFold(n_splits=cv)\<close>
  yields folds for \<open>X\<close>, there are \<open>cv\<close> folds and they partition the indices of \<open>X\<close>:
  every sample index is in the test set of exactly one fold, and in each fold the train
  set and the test set are disjoint, their union is the set of all indices, and the train
  set is the union of the test sets of the other folds. These folds are the ones the loop
  of \<^verbatim>\<open>evaluate_model\<close> runs over, in this order.
\<close>

theorem KFold_folds_partition:
  assumes "KFold cv = Inr kf" and "KFold_split kf (length X) = Inr folds"
  shows "length folds = nat cv \<and>
         (\<forall>i<length X. \<exists>!j. j < length folds \<and> i \<in> set (snd (folds ! j))) \<and>
         (\<forall>j<length folds.
            set (fst (folds ! j)) \<inter> set (snd (folds ! j)) = {} \<and>
            set (fst (folds ! j)) \<union> set (snd (folds ! j)) = {0..<length X} \<and>
            set (fst (folds ! j)) = (\<Union>k\<in>{0..<length folds} - {j}. set (snd (folds ! k)))) \<and>
         evaluate_model tk X y e cv report s =
           bind (if report then split_and_report tk X y e else returns ())
             (\<lambda>_ s0. kfold_loop tk X y e folds []
                (s0\<lparr>calls := calls s0 @ [KFoldNew cv, KFoldSplit X]\<rparr>)) s"
proof -
  from assms(1) have kf: "kf = nat cv" "0 < kf" by (simp_all add: KFold_Inr)
  have loop: "evaluate_model tk X y e cv report s =
           bind (if report then split_and_report tk X y e else returns ())
             (\<lambda>_ s0. kfold_loop tk X y e folds []
                (s0\<lparr>calls := calls s0 @ [KFoldNew cv, KFoldSplit X]\<rparr>)) s"
    using assms by (simp add: evaluate_model_def bind_def library_call_def)
  note part = KFold_split_partition[OF kf(2) assms(2)]
  have train: "set (fst (folds ! j)) = (\<Union>k\<in>{0..<length folds} - {j}. set (snd (folds ! k)))"
    if j: "j < length folds" for j
  proof (intro set_eqI iffI)
    fix i assume "i \<in> set (fst (folds ! j))"
    with part(4)[OF j] have i: "i < length X" "i \<notin> set (snd (folds ! j))" by simp_all
    from part(3)[OF i(1)] obtain k where k: "k < length folds" "i \<in> set (snd (folds ! k))"
      by blast
    with i(2) have "k \<noteq> j" by auto
    with k have "k \<in> {0..<length folds} - {j}" by simp
    then show "i \<in> (\<Union>k\<in>{0..<length folds} - {j}. set (snd (folds ! k)))"
      using k(2) by (rule UN_I)
  next
    fix i assume "i \<in> (\<Union>k\<in>{0..<length folds} - {j}. set (snd (folds ! k)))"
    then obtain k where "k \<in> {0..<length folds} - {j}" and ik: "i \<in> set (snd (folds ! k))"
      by (rule UN_E)
    then have k: "k < length folds" "k \<noteq> j" "i \<in> set (snd (folds ! k))" by simp_all
    from part(5)[OF k(1)] k(3) have i: "i < length X" by auto
    have "i \<notin> set (snd (folds ! j))"
    proof
      assume "i \<in> set (snd (folds ! j))"
      with part(3)[OF i] k(1,3) j have "k = j" by (auto elim!: ex1E)
      with k(2) show False by simp
    qed
    with i part(4)[OF j] show "i \<in> set (fst (folds ! j))" by simp
  qed
  have each: "set (fst (folds ! j)) \<inter> set (snd (folds ! j)) = {} \<and>
              set (fst (folds ! j)) \<union> set (snd (folds ! j)) = {0..<length X}"
    if j: "j < length folds" for j
    using part(4)[OF j] part(5)[OF j] by auto
  have "length folds = nat cv" using part(1) kf(1) by simp
  moreover have "\<forall>i<length X. \<exists>!j. j < length folds \<and> i \<in> set (snd (folds ! j))"
    using part(3) by simp
  moreover have "\<forall>j<length folds.
            set (fst (folds ! j)) \<inter> set (snd (folds ! j)) = {} \<and>
            set (fst (folds ! j)) \<union> set (snd (folds ! j)) = {0..<length X} \<and>
            set (fst (folds ! j)) = (\<Union>k\<in>{0..<length folds} - {j}. set (snd (folds ! k)))"
    using train each by simp
  ultimately show ?thesis using loop by (intro conjI)
qed

theorem KFold_folds_partition_witness:
  "KFold 2 = Inr 2 \<and>
   KFold_split 2 (length [10, 20, 30, 40, 50 :: nat]) =
     Inr [([3, 4], [0, 1, 2]), ([0, 1, 2], [3, 4])] \<and>
   length ([([3, 4], [0, 1, 2]), ([0, 1, 2], [3, 4])] :: (nat list \<times> nat list) list) = nat 2 \<and>
   (\<exists>!j. j < 2 \<and>
      3 \<in> set (snd (([([3, 4], [0, 1, 2]), ([0, 1, 2], [3, 4])] :: (nat list \<times> nat list) list) ! j))) \<and>
   set [3, 4 :: nat] \<inter> set [0, 1, 2] = {} \<and>
   set [3, 4 :: nat] \<union> set [0, 1, 2] = {0..<5} \<and>
   set [3, 4 :: nat] =
     (\<Union>k\<in>{0..<2} - {0}.
        set (snd (([([3, 4], [0, 1, 2]), ([0, 1, 2], [3, 4])] :: (nat list \<times> nat list) list) ! k))) \<and>
   evaluate_model tk0 [10, 20, 30, 40, 50] [0, 1, 1, 0, 1] 7 2 False \<lparr>model = 0, calls = []\<rparr> =
     kfold_loop tk0 [10, 20, 30, 40, 50] [0, 1, 1, 0, 1] 7
       [([3, 4], [0, 1, 2]), ([0, 1, 2], [3, 4])] []
       \<lparr>model = 0, calls = [KFoldNew 2, KFoldSplit [10, 20, 30, 40, 50]]\<rparr>"
proof -
  let ?X = "[10, 20, 30, 40, 50 :: nat]"
  let ?F = "[([3, 4], [0, 1, 2]), ([0, 1, 2], [3, 4])] :: (nat list \<times> nat list) list"
  have k: "KFold 2 = Inr 2" by (simp add: KFold_def)
  have s: "KFold_split 2 (length ?X) = Inr ?F" by code_simp
  have lenX: "length ?X = 5" and lenF: "length ?F = 2" by simp_all
  note p = KFold_folds_partition[OF k s, where tk = tk0 and y = "[0, 1, 1, 0, 1]" and e = 7
      and report = False and s = "\<lparr>model = 0, calls = []\<rparr>"]
  note p1 = p[THEN conjunct1] and p2 = p[THEN conjunct2, THEN conjunct1]
    and p3 = p[THEN conjunct2, THEN conjunct2, THEN conjunct1]
    and p4 = p[THEN conjunct2, THEN conjunct2, THEN conjunct2]
  from p4 have d: "evaluate_model tk0 ?X [0, 1, 1, 0, 1] 7 2 False \<lparr>model = 0, calls = []\<rparr> =
     kfold_loop tk0 ?X [0, 1, 1, 0, 1] 7 ?F []
       \<lparr>model = 0, calls = [KFoldNew 2, KFoldSplit ?X]\<rparr>"
    by (simp only: bind_def returns_def if_False prod.case sum.case session.select_convs
          session.update_convs append_Nil)
  from p1 have a: "length ?F = nat 2" .
  from p2 have "\<forall>i<length ?X. \<exists>!j. j < length ?F \<and> i \<in> set (snd (?F ! j))" .
  then have b: "\<exists>!j. j < 2 \<and> (3::nat) \<in> set (snd (?F ! j))"
    unfolding lenX lenF by simp
  from p3 have "\<forall>j<length ?F.
      set (fst (?F ! j)) \<inter> set (snd (?F ! j)) = {} \<and>
      set (fst (?F ! j)) \<union> set (snd (?F ! j)) = {0..<length ?X} \<and>
      set (fst (?F ! j)) = (\<Union>k\<in>{0..<length ?F} - {j}. set (snd (?F ! k)))" .
  then have "0 < length ?F \<longrightarrow>
      set (fst (?F ! 0)) \<inter> set (snd (?F ! 0)) = {} \<and>
      set (fst (?F ! 0)) \<union> set (snd (?F ! 0)) = {0..<length ?X} \<and>
      set (fst (?F ! 0)) = (\<Union>k\<in>{0..<length ?F} - {0}. set (snd (?F ! k)))"
    by (rule spec)
  moreover have "0 < length ?F" by simp
  ultimately have "set (fst (?F ! 0)) \<inter> set (snd (?F ! 0)) = {} \<and>
      set (fst (?F ! 0)) \<union> set (snd (?F ! 0)) = {0..<length ?X} \<and>
      set (fst (?F ! 0)) = (\<Union>k\<in>{0..<length ?F} - {0}. set (snd (?F ! k)))"
    by (rule mp)
  then have "set (fst (?F ! 0)) \<inter> set (snd (?F ! 0)) = {} \<and>
      set (fst (?F ! 0)) \<union> set (snd (?F ! 0)) = {0..<5} \<and>
      set (fst (?F ! 0)) = (\<Union>k\<in>{0..<2} - {0}. set (snd (?F ! k)))"
    unfolding lenX lenF .
  then have c: "set [3, 4 :: nat] \<inter> set [0, 1, 2] = {} \<and>
      set [3, 4 :: nat] \<union> set [0, 1, 2] = {0..<5} \<and>
      set [3, 4 :: nat] = (\<Union>k\<in>{0..<2} - {0}. set (snd (?F ! k)))"
    unfolding nth_Cons_0 fst_conv snd_conv .
  note c1 = c[THEN conjunct1] and c2 = c[THEN conjunct2, THEN conjunct1]
    and c3 = c[THEN conjunct2, THEN conjunct2]
  show ?thesis
  proof (intro conjI)
    show "KFold 2 = Inr 2" by (fact k)
    show "KFold_split 2 (length ?X) = Inr ?F" by (fact s)
    show "length ?F = nat 2" by (fact a)
    show "\<exists>!j. j < 2 \<and> 3 \<in> set (snd (?F ! j))" by (fact b)
    show "set [3, 4 :: nat] \<inter> set [0, 1, 2] = {}" by (fact c1)
    show "set [3, 4 :: nat] \<union> set [0, 1, 2] = {0..<5}" by (fact c2)
    show "set [3, 4 :: nat] = (\<Union>k\<in>{0..<2} - {0}. set (snd (?F ! k)))" by (fact c3)
    show "evaluate_model tk0 ?X [0, 1, 1, 0, 1] 7 2 False \<lparr>model = 0, calls = []\<rparr> =
     kfold_loop tk0 ?X [0, 1, 1, 0, 1] 7 ?F []
       \<lparr>model = 0, calls = [KFoldNew 2, KFoldSplit ?X]\<rparr>" by (fact d)
  qed
qed

section \<open>Running the actions\<close>

lemma bind_Inr_iff:
  "bind act rest s = (Inr v, s') \<longleftrightarrow> (\<exists>w s1. act s = (Inr w, s1) \<and> rest w s1 = (Inr v, s'))"
  by (auto simp: bind_def split: prod.splits sum.splits)

lemma lift_Inr_iff: "lift r s = (Inr v, s') \<longleftrightarrow> r = Inr v \<and> s' = s"
  by (auto simp: lift_def)

lemma returns_Inr_iff: "returns w s = (Inr v, s') \<longleftrightarrow> v = w \<and> s' = s"
  by (auto simp: returns_def)

lemma library_call_Inr_iff:
  "library_call c r s = (Inr v, s') \<longleftrightarrow> r = Inr v \<and> s' = s\<lparr>calls := calls s @ [c]\<rparr>"
  by (auto simp: library_call_def)

lemma model_fit_Inr_iff:
  "model_fit tk Xs ys e s = (Inr u, s') \<longleftrightarrow>
     (\<exists>m'. fit tk (model s) Xs ys e = Inr m' \<and>
           s' = s\<lparr>model := m', calls := calls s @ [Fit (model s) Xs ys e]\<rparr>)"
  by (auto simp: model_fit_def split: sum.splits)

lemma predict_labels_Inr_iff:
  "predict_labels tk Xs s = (Inr y_pred, s') \<longleftrightarrow>
     (\<exists>p. predict tk (model s) Xs = Inr p \<and> argmax tk p = Inr y_pred \<and>
          s' = s\<lparr>calls := calls s @ [Predict (model s) Xs, Argmax p]\<rparr>)"
  by (auto simp: predict_labels_def bind_Inr_iff library_call_Inr_iff)

lemma fold_body_Inr:
  assumes "fold_body tk X y e tr te s = (Inr score, s')"
  shows "\<exists>X_tr y_tr X_te y_te p y_pred.
           take_rows X tr = Inr X_tr \<and> take_rows y tr = Inr y_tr \<and>
           fit tk (model s) X_tr y_tr e = Inr (model s') \<and>
           take_rows X te = Inr X_te \<and> predict tk (model s') X_te = Inr p \<and>
           argmax tk p = Inr y_pred \<and> take_rows y te = Inr y_te \<and>
           f1_score tk y_te y_pred = Inr score \<and>
           calls s' = calls s @ [Fit (model s) X_tr y_tr e, Predict (model s') X_te,
                                 Argmax p, F1Score y_te y_pred]"
  using assms
  by (auto simp: fold_body_def bind_Inr_iff lift_Inr_iff model_fit_Inr_iff
        predict_labels_Inr_iff library_call_Inr_iff)

lemma fold_body_scored:
  "fold_body tk X y e tr te s = (Inr score, s') \<Longrightarrow>
     fold_scored tk X y e (tr, te) (model s) (model s') score"
  unfolding fold_scored_def by (drule fold_body_Inr) auto

lemma kfold_loop_Inr:
  "kfold_loop tk X y e folds acc s = (Inr scores, s') \<Longrightarrow>
   \<exists>new ms. scores = acc @ new \<and> length new = length folds \<and>
     length ms = Suc (length folds) \<and> ms ! 0 = model s \<and> ms ! length folds = model s' \<and>
     (\<forall>i<length folds. fold_scored tk X y e (folds ! i) (ms ! i) (ms ! Suc i) (new ! i))"
proof (induction folds arbitrary: acc s)
  case Nil
  then have "scores = acc" "s' = s" by (simp_all add: returns_Inr_iff)
  then show ?case by (intro exI[of _ "[]"] exI[of _ "[model s]"]) simp
next
  case (Cons fld rest)
  obtain tr te where fld: "fld = (tr, te)" by (cases fld)
  from Cons.prems fld obtain score s1 where
    body: "fold_body tk X y e tr te s = (Inr score, s1)" and
    loop: "kfold_loop tk X y e rest (acc @ [score]) s1 = (Inr scores, s')"
    by (auto simp: bind_Inr_iff)
  from Cons.IH[OF loop] obtain new ms where
    IH: "scores = (acc @ [score]) @ new" "length new = length rest"
      "length ms = Suc (length rest)" "ms ! 0 = model s1" "ms ! length rest = model s'"
      "\<forall>i<length rest. fold_scored tk X y e (rest ! i) (ms ! i) (ms ! Suc i) (new ! i)"
    by blast
  have head: "fold_scored tk X y e fld (model s) (model s1) score"
    using fold_body_scored[OF body] fld by simp
  have step: "fold_scored tk X y e ((fld # rest) ! i) ((model s # ms) ! i)
                ((model s # ms) ! Suc i) ((score # new) ! i)"
    if "i < length (fld # rest)" for i
  proof (cases i)
    case 0
    with head IH(4) show ?thesis by simp
  next
    case (Suc j)
    with that IH(6) show ?thesis by simp
  qed
  show ?case
    using IH(1-5) step
    by (intro exI[of _ "score # new"] exI[of _ "model s # ms"]) simp
qed

lemma split_and_report_Inr_iff:
  "split_and_report tk X y e s = (Inr u, s') \<longleftrightarrow>
     (\<exists>X_train X_test y_train y_test m1 p y_pred text.
        train_test_split tk X y = Inr (X_train, X_test, y_train, y_test) \<and>
        fit tk (model s) X_train y_train e = Inr m1 \<and>
        predict tk m1 X_test = Inr p \<and> argmax tk p = Inr y_pred \<and>
        classification_report tk y_test y_pred = Inr text \<and>
        s' = s\<lparr>model := m1,
               calls := calls s @ [TrainTestSplit X y, Fit (model s) X_train y_train e,
                 Predict m1 X_test, Argmax p, ClassificationReport y_test y_pred, Print text]\<rparr>)"
  by (auto simp: split_and_report_def bind_Inr_iff library_call_Inr_iff model_fit_Inr_iff
        predict_labels_Inr_iff)

lemma evaluate_model_True:
  "evaluate_model tk X y e cv True s =
     (case split_and_report tk X y e s of
        (Inl err, s0) \<Rightarrow> (Inl err, s0)
      | (Inr u, s0) \<Rightarrow> evaluate_model tk X y e cv False s0)"
  by (simp add: evaluate_model_def bind_def returns_def split: prod.splits sum.splits)

lemma evaluate_model_False_Inr_iff:
  "evaluate_model tk X y e cv False s = (Inr scores, s') \<longleftrightarrow>
     (\<exists>folds. 2 \<le> cv \<and> KFold_split (nat cv) (length X) = Inr folds \<and>
        kfold_loop tk X y e folds [] (s\<lparr>calls := calls s @ [KFoldNew cv, KFoldSplit X]\<rparr>) =
          (Inr scores, s'))"
  by (auto simp: evaluate_model_def bind_Inr_iff returns_Inr_iff library_call_Inr_iff KFold_Inr)

lemma split_and_report_log:
  "\<exists>pre. calls (snd (split_and_report tk X y e s)) = calls s @ TrainTestSplit X y # pre \<and>
         list_all (\<lambda>c. \<not> kfold_call c) pre"
  by (auto simp: split_and_report_def bind_def library_call_def model_fit_def predict_labels_def
        split: sum.splits prod.splits)

lemma fold_body_log:
  "\<exists>new. calls (snd (fold_body tk X y e tr te s)) = calls s @ new \<and>
         list_all (\<lambda>c. \<not> report_call c) new"
  by (auto simp: fold_body_def bind_def lift_def library_call_def model_fit_def predict_labels_def
        split: sum.splits prod.splits)

lemma kfold_loop_log:
  "\<exists>new. calls (snd (kfold_loop tk X y e folds acc s)) = calls s @ new \<and>
         list_all (\<lambda>c. \<not> report_call c) new"
proof (induction folds arbitrary: acc s)
  case Nil
  show ?case by (simp add: returns_def)
next
  case (Cons fld rest)
  obtain tr te where fld: "fld = (tr, te)" by (cases fld)
  obtain r s1 where body: "fold_body tk X y e tr te s = (r, s1)" by (cases "fold_body tk X y e tr te s")
  from fold_body_log[of tk X y e tr te s] body obtain new1 where
    n1: "calls s1 = calls s @ new1" "list_all (\<lambda>c. \<not> report_call c) new1" by auto
  show ?case
  proof (cases r)
    case (Inl err)
    with body fld n1 show ?thesis by (simp add: bind_def)
  next
    case (Inr score)
    from Cons.IH[of "acc @ [score]" s1] obtain new2 where
      n2: "calls (snd (kfold_loop tk X y e rest (acc @ [score]) s1)) = calls s1 @ new2"
          "list_all (\<lambda>c. \<not> report_call c) new2" by blast
    have "calls (snd (kfold_loop tk X y e (fld # rest) acc s)) = calls s @ (new1 @ new2)"
      using Inr body fld n1(1) n2(1) by (simp add: bind_def)
    moreover have "list_all (\<lambda>c. \<not> report_call c) (new1 @ new2)" using n1(2) n2(2) by simp
    ultimately show ?thesis by blast
  qed
qed

lemma evaluate_model_False_log:
  "\<exists>rest. calls (snd (evaluate_model tk X y e cv False s)) = calls s @ KFoldNew cv # rest \<and>
          list_all (\<lambda>c. \<not> report_call c) rest"
proof (cases "KFold cv")
  case (Inl err)
  then show ?thesis
    by (simp add: evaluate_model_def bind_def returns_def library_call_def)
next
  case kf: (Inr kf)
  show ?thesis
  proof (cases "KFold_split kf (length X)")
    case (Inl err)
    with kf show ?thesis
      by (simp add: evaluate_model_def bind_def returns_def library_call_def)
  next
    case (Inr folds)
    let ?s2 = "s\<lparr>calls := calls s @ [KFoldNew cv, KFoldSplit X]\<rparr>"
    from kfold_loop_log[of tk X y e folds "[]" ?s2] obtain new where
      n: "calls (snd (kfold_loop tk X y e folds [] ?s2)) = calls ?s2 @ new"
         "list_all (\<lambda>c. \<not> report_call c) new" by blast
    have "evaluate_model tk X y e cv False s = kfold_loop tk X y e folds [] ?s2"
      using kf Inr by (simp add: evaluate_model_def bind_def returns_def library_call_def)
    with n show ?thesis by simp
  qed
qed


lemma fits_chain_append:
  "fits_chain tk m (cs @ ds) =
     (case fits_chain tk m cs of None \<Rightarrow> None | Some m' \<Rightarrow> fits_chain tk m' ds)"
  by (induction tk m cs rule: fits_chain.induct) (auto split: sum.splits)

lemma kfold_loop_fits:
  "kfold_loop tk X y e folds acc s = (Inr scores, s') \<Longrightarrow>
   \<exists>new. calls s' = calls s @ new \<and> length (filter is_Fit new) = length folds \<and>
         fits_chain tk (model s) new = Some (model s')"
proof (induction folds arbitrary: acc s)
  case Nil
  then show ?case by (simp add: returns_Inr_iff)
next
  case (Cons fld rest)
  obtain tr te where fld: "fld = (tr, te)" by (cases fld)
  from Cons.prems fld obtain score s1 where
    body: "fold_body tk X y e tr te s = (Inr score, s1)" and
    loop: "kfold_loop tk X y e rest (acc @ [score]) s1 = (Inr scores, s')"
    by (auto simp: bind_Inr_iff)
  from fold_body_Inr[OF body] obtain X_tr y_tr X_te y_te p y_pred where
    b: "fit tk (model s) X_tr y_tr e = Inr (model s1)"
       "calls s1 = calls s @ [Fit (model s) X_tr y_tr e, Predict (model s1) X_te,
                              Argmax p, F1Score y_te y_pred]"
    by blast
  from Cons.IH[OF loop] obtain new where
    n: "calls s' = calls s1 @ new" "length (filter is_Fit new) = length rest"
       "fits_chain tk (model s1) new = Some (model s')"
    by blast
  let ?four = "[Fit (model s) X_tr y_tr e, Predict (model s1) X_te, Argmax p, F1Score y_te y_pred]"
  have "calls s' = calls s @ (?four @ new)" using b(2) n(1) by simp
  moreover have "length (filter is_Fit (?four @ new)) = length (fld # rest)" using n(2) by simp
  moreover have "fits_chain tk (model s) (?four @ new) = Some (model s')"
    using b(1) n(3) by simp
  ultimately show ?case by blast
qed


section \<open>Properties of evaluate_model\<close>

text \<open>
  Claim C1, as amended. In every call of \<^verbatim>\<open>evaluate_model\<close> the calls it makes are those of
  a split-and-report phase followed by those of a K-fold phase, and no call of the first
  kind comes after one of the second. With \<^verbatim>\<open>report\<close> true the first phase starts with
  the train/test split of \<open>(X, y)\<close>; when the function returns, that phase was exactly the
  split, the fit on the train part, the prediction for the test part with its argmax,
  the classification report and its printing, and the K-fold phase after it started by
  making the splitter for \<open>cv\<close> folds and splitting \<open>X\<close>. With \<^verbatim>\<open>report\<close> false the first
  phase is empty: there is no train/test split.
\<close>

theorem evaluate_model_phases:
  "\<exists>pre post.
     calls (snd (evaluate_model tk X y e cv report s)) = calls s @ pre @ post \<and>
     list_all (\<lambda>c. \<not> kfold_call c) pre \<and> list_all (\<lambda>c. \<not> report_call c) post \<and>
     (if report then \<exists>rest. pre = TrainTestSplit X y # rest else pre = []) \<and>
     (post = [] \<or> (\<exists>rest. post = KFoldNew cv # rest)) \<and>
     (\<forall>scores s'. evaluate_model tk X y e cv report s = (Inr scores, s') \<longrightarrow>
        (\<exists>rest. post = KFoldNew cv # KFoldSplit X # rest) \<and>
        (report \<longrightarrow>
           (\<exists>X_train X_test y_train y_test m1 p y_pred text.
              train_test_split tk X y = Inr (X_train, X_test, y_train, y_test) \<and>
              fit tk (model s) X_train y_train e = Inr m1 \<and>
              predict tk m1 X_test = Inr p \<and> argmax tk p = Inr y_pred \<and>
              classification_report tk y_test y_pred = Inr text \<and>
              pre = [TrainTestSplit X y, Fit (model s) X_train y_train e, Predict m1 X_test,
                     Argmax p, ClassificationReport y_test y_pred, Print text])))"
proof -
  have kphase: "\<exists>post. calls (snd (evaluate_model tk X y e cv False s0)) = calls s0 @ post \<and>
      list_all (\<lambda>c. \<not> report_call c) post \<and>
      (\<exists>rest. post = KFoldNew cv # rest) \<and>
      (\<forall>scores s'. evaluate_model tk X y e cv False s0 = (Inr scores, s') \<longrightarrow>
         (\<exists>rest. post = KFoldNew cv # KFoldSplit X # rest))" for s0
  proof -
    from evaluate_model_False_log[of tk X y e cv s0] obtain rest where
      r: "calls (snd (evaluate_model tk X y e cv False s0)) = calls s0 @ KFoldNew cv # rest"
         "list_all (\<lambda>c. \<not> report_call c) rest" by blast
    have "\<exists>rest'. rest = KFoldSplit X # rest'"
      if "evaluate_model tk X y e cv False s0 = (Inr scores, s')" for scores s'
    proof -
      from that obtain folds where
        "kfold_loop tk X y e folds [] (s0\<lparr>calls := calls s0 @ [KFoldNew cv, KFoldSplit X]\<rparr>) =
           (Inr scores, s')"
        by (auto simp: evaluate_model_False_Inr_iff)
      with kfold_loop_log[of tk X y e folds "[]" "s0\<lparr>calls := calls s0 @ [KFoldNew cv, KFoldSplit X]\<rparr>"]
      obtain new where "calls s' = calls s0 @ [KFoldNew cv, KFoldSplit X] @ new" by auto
      with r(1) that have "KFoldNew cv # rest = [KFoldNew cv, KFoldSplit X] @ new" by simp
      then show ?thesis by simp
    qed
    with r show ?thesis by (intro exI[of _ "KFoldNew cv # rest"]) auto
  qed
  show ?thesis
  proof (cases report)
    case False
    from kphase[of s] obtain post where
      "calls (snd (evaluate_model tk X y e cv False s)) = calls s @ post \<and>
       list_all (\<lambda>c. \<not> report_call c) post \<and> (\<exists>rest. post = KFoldNew cv # rest) \<and>
       (\<forall>scores s'. evaluate_model tk X y e cv False s = (Inr scores, s') \<longrightarrow>
         (\<exists>rest. post = KFoldNew cv # KFoldSplit X # rest))" ..
    with False show ?thesis by (intro exI[of _ "[]"] exI[of _ post]) simp
  next
    case True
    obtain r0 s0 where sr: "split_and_report tk X y e s = (r0, s0)"
      by (cases "split_and_report tk X y e s")
    from split_and_report_log[of tk X y e s] sr obtain pre where
      pre: "calls s0 = calls s @ TrainTestSplit X y # pre" "list_all (\<lambda>c. \<not> kfold_call c) pre"
      by auto
    show ?thesis
    proof (cases r0)
      case (Inl err)
      with sr have "evaluate_model tk X y e cv True s = (Inl err, s0)"
        by (simp add: evaluate_model_True)
      with True pre show ?thesis
        by (intro exI[of _ "TrainTestSplit X y # pre"] exI[of _ "[]"]) simp
    next
      case (Inr u)
      with sr have ev: "evaluate_model tk X y e cv True s = evaluate_model tk X y e cv False s0"
        by (simp add: evaluate_model_True)
      from kphase[of s0] obtain post where post:
        "calls (snd (evaluate_model tk X y e cv False s0)) = calls s0 @ post \<and>
         list_all (\<lambda>c. \<not> report_call c) post \<and> (\<exists>rest. post = KFoldNew cv # rest) \<and>
         (\<forall>scores s'. evaluate_model tk X y e cv False s0 = (Inr scores, s') \<longrightarrow>
           (\<exists>rest. post = KFoldNew cv # KFoldSplit X # rest))" ..
      from sr Inr obtain X_train X_test y_train y_test m1 p y_pred rep where six:
        "train_test_split tk X y = Inr (X_train, X_test, y_train, y_test)"
        "fit tk (model s) X_train y_train e = Inr m1"
        "predict tk m1 X_test = Inr p" "argmax tk p = Inr y_pred"
        "classification_report tk y_test y_pred = Inr rep"
        "s0 = s\<lparr>model := m1,
               calls := calls s @ [TrainTestSplit X y, Fit (model s) X_train y_train e,
                 Predict m1 X_test, Argmax p, ClassificationReport y_test y_pred, Print rep]\<rparr>"
        by (auto simp: split_and_report_Inr_iff)
      from six(6) pre(1) have "TrainTestSplit X y # pre =
          [TrainTestSplit X y, Fit (model s) X_train y_train e,
           Predict m1 X_test, Argmax p, ClassificationReport y_test y_pred, Print rep]"
        by simp
      with six(1-5) have full: "\<exists>X_train X_test y_train y_test m1 p y_pred text.
              train_test_split tk X y = Inr (X_train, X_test, y_train, y_test) \<and>
              fit tk (model s) X_train y_train e = Inr m1 \<and>
              predict tk m1 X_test = Inr p \<and> argmax tk p = Inr y_pred \<and>
              classification_report tk y_test y_pred = Inr text \<and>
              TrainTestSplit X y # pre =
                [TrainTestSplit X y, Fit (model s) X_train y_train e, Predict m1 X_test,
                 Argmax p, ClassificationReport y_test y_pred, Print text]"
        by blast
      show ?thesis
        using True ev pre post full
        by (intro exI[of _ "TrainTestSplit X y # pre"] exI[of _ post]) simp
    qed
  qed
qed

lemma evaluate_model_Inr_folds:
  assumes "evaluate_model tk X y e cv report s = (Inr scores, s')"
  shows "\<exists>folds ms.
           2 \<le> cv \<and> KFold_split (nat cv) (length X) = Inr folds \<and>
           length scores = length folds \<and> length ms = Suc (length folds) \<and>
           (\<not> report \<longrightarrow> ms ! 0 = model s) \<and> ms ! length folds = model s' \<and>
           (\<forall>i<length folds.
              fold_scored tk X y e (folds ! i) (ms ! i) (ms ! Suc i) (scores ! i))"
proof -
  from assms obtain s0 where s0: "evaluate_model tk X y e cv False s0 = (Inr scores, s')"
    and init: "\<not> report \<longrightarrow> s0 = s"
    by (cases report) (auto simp: evaluate_model_True split: prod.splits sum.splits)
  let ?s2 = "s0\<lparr>calls := calls s0 @ [KFoldNew cv, KFoldSplit X]\<rparr>"
  from s0 obtain folds where f: "2 \<le> cv" "KFold_split (nat cv) (length X) = Inr folds"
    "kfold_loop tk X y e folds [] ?s2 = (Inr scores, s')"
    by (auto simp: evaluate_model_False_Inr_iff)
  from kfold_loop_Inr[OF f(3)] obtain new ms where
    l: "scores = [] @ new" "length new = length folds" "length ms = Suc (length folds)"
       "ms ! 0 = model ?s2" "ms ! length folds = model s'"
       "\<forall>i<length folds. fold_scored tk X y e (folds ! i) (ms ! i) (ms ! Suc i) (new ! i)"
    by blast
  have "\<not> report \<longrightarrow> ms ! 0 = model s" using l(4) init by auto
  then show ?thesis
    using f(1,2) l by (intro exI[of _ folds] exI[of _ ms]) simp
qed

lemma evaluate_model_Inr_fits:
  assumes "evaluate_model tk X y e cv report s = (Inr scores, s')"
  shows "\<exists>new. calls s' = calls s @ new \<and>
           length (filter is_Fit new) = nat cv + (if report then 1 else 0) \<and>
           fits_chain tk (model s) new = Some (model s') \<and>
           (report \<longrightarrow> (\<exists>X_train X_test y_train y_test rest.
              train_test_split tk X y = Inr (X_train, X_test, y_train, y_test) \<and>
              new = TrainTestSplit X y # Fit (model s) X_train y_train e # rest))"
proof -
  have kphase: "\<exists>new. calls s' = calls s0 @ new \<and> length (filter is_Fit new) = nat cv \<and>
      fits_chain tk (model s0) new = Some (model s')"
    if run: "evaluate_model tk X y e cv False s0 = (Inr scores, s')" for s0
  proof -
    let ?s2 = "s0\<lparr>calls := calls s0 @ [KFoldNew cv, KFoldSplit X]\<rparr>"
    from run obtain folds where f: "2 \<le> cv" "KFold_split (nat cv) (length X) = Inr folds"
      "kfold_loop tk X y e folds [] ?s2 = (Inr scores, s')"
      by (auto simp: evaluate_model_False_Inr_iff)
    from f(1) have "0 < nat cv" by simp
    then have len: "length folds = nat cv"
      using f(2) by (rule KFold_split_partition(1))
    from kfold_loop_fits[OF f(3)] obtain new where
      n: "calls s' = calls ?s2 @ new" "length (filter is_Fit new) = length folds"
         "fits_chain tk (model ?s2) new = Some (model s')" by (elim exE conjE)
    let ?new = "[KFoldNew cv, KFoldSplit X] @ new"
    have c1: "calls s' = calls s0 @ ?new" using n(1) by simp
    have c2: "length (filter is_Fit ?new) = nat cv" using n(2) len by simp
    have c3: "fits_chain tk (model s0) ?new = Some (model s')" using n(3) by simp
    show ?thesis
    proof (intro exI conjI)
      show "calls s' = calls s0 @ ?new" by (fact c1)
      show "length (filter is_Fit ?new) = nat cv" by (fact c2)
      show "fits_chain tk (model s0) ?new = Some (model s')" by (fact c3)
    qed
  qed
  show ?thesis
  proof (cases report)
    case False
    with assms have "evaluate_model tk X y e cv False s = (Inr scores, s')" by simp
    from kphase[OF this] obtain new where
      n: "calls s' = calls s @ new" "length (filter is_Fit new) = nat cv"
         "fits_chain tk (model s) new = Some (model s')" by (elim exE conjE)
    show ?thesis
    proof (intro exI conjI)
      show "calls s' = calls s @ new" by (fact n(1))
      show "length (filter is_Fit new) = nat cv + (if report then 1 else 0)"
        using n(2) False by simp
      show "fits_chain tk (model s) new = Some (model s')" by (fact n(3))
      show "report \<longrightarrow> (\<exists>X_train X_test y_train y_test rest.
              train_test_split tk X y = Inr (X_train, X_test, y_train, y_test) \<and>
              new = TrainTestSplit X y # Fit (model s) X_train y_train e # rest)"
        using False by simp
    qed
  next
    case True
    obtain r0 s0 where sr0: "split_and_report tk X y e s = (r0, s0)"
      by (cases "split_and_report tk X y e s")
    from assms True sr0 obtain u where r0: "r0 = Inr u"
      by (cases r0) (simp_all add: evaluate_model_True)
    from assms True sr0 r0 have run: "evaluate_model tk X y e cv False s0 = (Inr scores, s')"
      by (simp add: evaluate_model_True)
    from sr0 r0 have "split_and_report tk X y e s = (Inr u, s0)" by simp
    then obtain X_train X_test y_train y_test m1 p y_pred rep where six:
      "train_test_split tk X y = Inr (X_train, X_test, y_train, y_test)"
      "fit tk (model s) X_train y_train e = Inr m1"
      "s0 = s\<lparr>model := m1,
             calls := calls s @ [TrainTestSplit X y, Fit (model s) X_train y_train e,
               Predict m1 X_test, Argmax p, ClassificationReport y_test y_pred, Print rep]\<rparr>"
      unfolding split_and_report_Inr_iff by (elim exE conjE)
    from kphase[OF run] obtain new where
      n: "calls s' = calls s0 @ new" "length (filter is_Fit new) = nat cv"
         "fits_chain tk (model s0) new = Some (model s')" by (elim exE conjE)
    let ?rest = "[Predict m1 X_test, Argmax p, ClassificationReport y_test y_pred, Print rep] @ new"
    let ?all = "TrainTestSplit X y # Fit (model s) X_train y_train e # ?rest"
    have m0: "model s0 = m1" and c0: "calls s0 = calls s @
        [TrainTestSplit X y, Fit (model s) X_train y_train e,
         Predict m1 X_test, Argmax p, ClassificationReport y_test y_pred, Print rep]"
      unfolding six(3) by simp_all
    have c1: "calls s' = calls s @ ?all" unfolding n(1) c0 by simp
    have c2: "length (filter is_Fit ?all) = nat cv + 1" using n(2) by simp
    have c3: "fits_chain tk (model s) ?all = Some (model s')"
      using n(3) six(2) m0 by simp
    show ?thesis
    proof (intro exI conjI impI)
      show "calls s' = calls s @ ?all" by (fact c1)
      show "length (filter is_Fit ?all) = nat cv + (if report then 1 else 0)"
        using c2 True by simp
      show "fits_chain tk (model s) ?all = Some (model s')" by (fact c3)
      show "train_test_split tk X y = Inr (X_train, X_test, y_train, y_test)" by (fact six(1))
      show "?all = TrainTestSplit X y # Fit (model s) X_train y_train e # ?rest" by (rule refl)
    qed
  qed
qed

lemma fold_body_chain:
  "\<exists>new. calls (snd (fold_body tk X y e tr te s)) = calls s @ new \<and>
         fits_chain tk (model s) new = Some (model (snd (fold_body tk X y e tr te s))) \<and>
         length (filter is_Fit new) \<le> 1"
  by (auto simp: fold_body_def bind_def lift_def library_call_def model_fit_def predict_labels_def
        split: sum.splits prod.splits)

lemma split_and_report_chain:
  "\<exists>new. calls (snd (split_and_report tk X y e s)) = calls s @ new \<and>
         fits_chain tk (model s) new = Some (model (snd (split_and_report tk X y e s))) \<and>
         length (filter is_Fit new) \<le> 1"
  by (auto simp: split_and_report_def bind_def library_call_def model_fit_def predict_labels_def
        split: sum.splits prod.splits)

lemma kfold_loop_chain:
  "\<exists>new. calls (snd (kfold_loop tk X y e folds acc s)) = calls s @ new \<and>
         fits_chain tk (model s) new = Some (model (snd (kfold_loop tk X y e folds acc s))) \<and>
         length (filter is_Fit new) \<le> length folds"
proof (induction folds arbitrary: acc s)
  case Nil
  show ?case by (simp add: returns_def)
next
  case (Cons fld rest)
  obtain tr te where fld: "fld = (tr, te)" by (cases fld)
  obtain r s1 where body: "fold_body tk X y e tr te s = (r, s1)"
    by (cases "fold_body tk X y e tr te s")
  from fold_body_chain[of tk X y e tr te s] body obtain new1 where
    n1: "calls s1 = calls s @ new1" "fits_chain tk (model s) new1 = Some (model s1)"
        "length (filter is_Fit new1) \<le> 1" by auto
  show ?case
  proof (cases r)
    case (Inl err)
    with body fld have "kfold_loop tk X y e (fld # rest) acc s = (Inl err, s1)"
      by (simp add: bind_def)
    with n1 show ?thesis by (intro exI[of _ new1]) simp
  next
    case (Inr score)
    let ?run = "kfold_loop tk X y e rest (acc @ [score]) s1"
    from Cons.IH[of "acc @ [score]" s1] obtain new2 where
      n2: "calls (snd ?run) = calls s1 @ new2"
          "fits_chain tk (model s1) new2 = Some (model (snd ?run))"
          "length (filter is_Fit new2) \<le> length rest" by (elim exE conjE)
    have eq: "kfold_loop tk X y e (fld # rest) acc s = ?run"
      using Inr body fld by (simp add: bind_def)
    show ?thesis
    proof (intro exI conjI)
      show "calls (snd (kfold_loop tk X y e (fld # rest) acc s)) = calls s @ (new1 @ new2)"
        unfolding eq using n1(1) n2(1) by simp
      show "fits_chain tk (model s) (new1 @ new2) =
              Some (model (snd (kfold_loop tk X y e (fld # rest) acc s)))"
        unfolding eq using n1(2) n2(2) by (simp add: fits_chain_append)
      show "length (filter is_Fit (new1 @ new2)) \<le> length (fld # rest)"
        using n1(3) n2(3) by simp
    qed
  qed
qed

lemma evaluate_model_False_chain:
  "\<exists>new. calls (snd (evaluate_model tk X y e cv False s)) = calls s @ new \<and>
         fits_chain tk (model s) new = Some (model (snd (evaluate_model tk X y e cv False s))) \<and>
         length (filter is_Fit new) \<le> nat cv"
proof (cases "KFold cv")
  case (Inl err)
  then have "evaluate_model tk X y e cv False s = (Inl err, s\<lparr>calls := calls s @ [KFoldNew cv]\<rparr>)"
    by (simp add: evaluate_model_def bind_def returns_def library_call_def)
  then show ?thesis by (intro exI[of _ "[KFoldNew cv]"]) simp
next
  case kf: (Inr kf)
  then have kf_eq: "kf = nat cv" "0 < kf" by (simp_all add: KFold_Inr)
  show ?thesis
  proof (cases "KFold_split kf (length X)")
    case (Inl err)
    with kf have "evaluate_model tk X y e cv False s =
        (Inl err, s\<lparr>calls := calls s @ [KFoldNew cv, KFoldSplit X]\<rparr>)"
      by (simp add: evaluate_model_def bind_def returns_def library_call_def)
    then show ?thesis by (intro exI[of _ "[KFoldNew cv, KFoldSplit X]"]) simp
  next
    case (Inr folds)
    let ?s2 = "s\<lparr>calls := calls s @ [KFoldNew cv, KFoldSplit X]\<rparr>"
    let ?run = "kfold_loop tk X y e folds [] ?s2"
    have len: "length folds = nat cv"
      using KFold_split_partition(1)[OF kf_eq(2) Inr] kf_eq(1) by simp
    from kfold_loop_chain[of tk X y e folds "[]" ?s2] obtain new where
      n: "calls (snd ?run) = calls ?s2 @ new"
         "fits_chain tk (model ?s2) new = Some (model (snd ?run))"
         "length (filter is_Fit new) \<le> length folds" by (elim exE conjE)
    have eq: "evaluate_model tk X y e cv False s = ?run"
      using kf Inr by (simp add: evaluate_model_def bind_def returns_def library_call_def)
    show ?thesis
    proof (intro exI conjI)
      show "calls (snd (evaluate_model tk X y e cv False s)) =
              calls s @ ([KFoldNew cv, KFoldSplit X] @ new)"
        unfolding eq using n(1) by simp
      show "fits_chain tk (model s) ([KFoldNew cv, KFoldSplit X] @ new) =
              Some (model (snd (evaluate_model tk X y e cv False s)))"
        unfolding eq using n(2) by simp
      show "length (filter is_Fit ([KFoldNew cv, KFoldSplit X] @ new)) \<le> nat cv"
        using n(3) len by simp
    qed
  qed
qed

lemma evaluate_model_chain:
  "\<exists>new. calls (snd (evaluate_model tk X y e cv report s)) = calls s @ new \<and>
         fits_chain tk (model s) new = Some (model (snd (evaluate_model tk X y e cv report s))) \<and>
         length (filter is_Fit new) \<le> nat cv + (if report then 1 else 0)"
proof (cases report)
  case False
  with evaluate_model_False_chain[of tk X y e cv s] show ?thesis by simp
next
  case True
  obtain r0 s0 where sr: "split_and_report tk X y e s = (r0, s0)"
    by (cases "split_and_report tk X y e s")
  from split_and_report_chain[of tk X y e s] sr obtain new1 where
    n1: "calls s0 = calls s @ new1" "fits_chain tk (model s) new1 = Some (model s0)"
        "length (filter is_Fit new1) \<le> 1" by auto
  show ?thesis
  proof (cases r0)
    case (Inl err)
    with sr True have "evaluate_model tk X y e cv report s = (Inl err, s0)"
      by (simp add: evaluate_model_True)
    with n1 True show ?thesis by (intro exI[of _ new1]) simp
  next
    case (Inr u)
    let ?run = "evaluate_model tk X y e cv False s0"
    from evaluate_model_False_chain[of tk X y e cv s0] obtain new2 where
      n2: "calls (snd ?run) = calls s0 @ new2"
          "fits_chain tk (model s0) new2 = Some (model (snd ?run))"
          "length (filter is_Fit new2) \<le> nat cv" by (elim exE conjE)
    have eq: "evaluate_model tk X y e cv report s = ?run"
      using Inr sr True by (simp add: evaluate_model_True)
    show ?thesis
    proof (intro exI conjI)
      show "calls (snd (evaluate_model tk X y e cv report s)) = calls s @ (new1 @ new2)"
        unfolding eq using n1(1) n2(1) by simp
      show "fits_chain tk (model s) (new1 @ new2) =
              Some (model (snd (evaluate_model tk X y e cv report s)))"
        unfolding eq using n1(2) n2(2) by (simp add: fits_chain_append)
      show "length (filter is_Fit (new1 @ new2)) \<le> nat cv + (if report then 1 else 0)"
        using n1(3) n2(3) True by simp
    qed
  qed
qed

text \<open>
  Claim C5. When \<^verbatim>\<open>evaluate_model\<close> returns, then for every fold \<open>i\<close> of the splitter the
  \<open>i\<close>-th score returned is the scoring function applied to the labels \<^verbatim>\<open>y[test_i]\<close> and to
  the argmax of \<^verbatim>\<open>model.predict(X[test_i])\<close>, the model being in the state the fit on
  \<^verbatim>\<open>(X[train_i], y[train_i])\<close> with the given \<^verbatim>\<open>max_epochs\<close> left it in; that fit started
  from the state the fold before left (\<open>ms ! i\<close> is the state before fold \<open>i\<close>).
\<close>

theorem evaluate_model_fold_scores:
  assumes "evaluate_model tk X y e cv report s = (Inr scores, s')"
  shows "\<exists>kf folds ms.
           KFold cv = Inr kf \<and> KFold_split kf (length X) = Inr folds \<and>
           length scores = length folds \<and> length ms = Suc (length folds) \<and>
           (\<not> report \<longrightarrow> ms ! 0 = model s) \<and> ms ! length folds = model s' \<and>
           (\<forall>i<length folds.
              \<exists>X_tr y_tr X_te y_te p y_pred.
                take_rows X (fst (folds ! i)) = Inr X_tr \<and>
                take_rows y (fst (folds ! i)) = Inr y_tr \<and>
                fit tk (ms ! i) X_tr y_tr e = Inr (ms ! Suc i) \<and>
                take_rows X (snd (folds ! i)) = Inr X_te \<and>
                predict tk (ms ! Suc i) X_te = Inr p \<and>
                argmax tk p = Inr y_pred \<and>
                take_rows y (snd (folds ! i)) = Inr y_te \<and>
                f1_score tk y_te y_pred = Inr (scores ! i))"
proof -
  from evaluate_model_Inr_folds[OF assms] obtain folds ms where
    h: "2 \<le> cv" "KFold_split (nat cv) (length X) = Inr folds"
       "length scores = length folds" "length ms = Suc (length folds)"
       "\<not> report \<longrightarrow> ms ! 0 = model s" "ms ! length folds = model s'"
       "\<forall>i<length folds. fold_scored tk X y e (folds ! i) (ms ! i) (ms ! Suc i) (scores ! i)"
    by (elim exE conjE)
  have "KFold cv = Inr (nat cv)" using h(1) by (simp add: KFold_Inr)
  with h show ?thesis
    unfolding fold_scored_def
    by (intro exI[of _ "nat cv"] exI[of _ folds] exI[of _ ms]) simp
qed

text \<open>
  Claim C6. In every call of \<^verbatim>\<open>evaluate_model\<close>, whatever its outcome, every \<^verbatim>\<open>fit\<close> is
  received by the one model in the state the fit before it left (the first in the state
  the model was passed in), the model ends in the state the last fit left, and there are
  at most \<open>cv\<close> fits with \<^verbatim>\<open>report\<close> false and \<open>cv + 1\<close> with \<^verbatim>\<open>report\<close> true. When the call
  returns there are exactly that many, and with \<^verbatim>\<open>report\<close> true the first of them is the
  fit on the train part of the split, before any fold.
\<close>

theorem evaluate_model_fits:
  "\<exists>new. calls (snd (evaluate_model tk X y e cv report s)) = calls s @ new \<and>
     fits_chain tk (model s) new = Some (model (snd (evaluate_model tk X y e cv report s))) \<and>
     length (filter is_Fit new) \<le> nat cv + (if report then 1 else 0) \<and>
     (\<forall>scores s'. evaluate_model tk X y e cv report s = (Inr scores, s') \<longrightarrow>
        length (filter is_Fit new) = nat cv + (if report then 1 else 0) \<and>
        (report \<longrightarrow> (\<exists>X_train X_test y_train y_test rest.
           train_test_split tk X y = Inr (X_train, X_test, y_train, y_test) \<and>
           new = TrainTestSplit X y # Fit (model s) X_train y_train e # rest)))"
proof -
  from evaluate_model_chain[of tk X y e cv report s] obtain new where
    n: "calls (snd (evaluate_model tk X y e cv report s)) = calls s @ new"
       "fits_chain tk (model s) new = Some (model (snd (evaluate_model tk X y e cv report s)))"
       "length (filter is_Fit new) \<le> nat cv + (if report then 1 else 0)"
    by (elim exE conjE)
  have returned: "length (filter is_Fit new) = nat cv + (if report then 1 else 0) \<and>
        (report \<longrightarrow> (\<exists>X_train X_test y_train y_test rest.
           train_test_split tk X y = Inr (X_train, X_test, y_train, y_test) \<and>
           new = TrainTestSplit X y # Fit (model s) X_train y_train e # rest))"
    if run: "evaluate_model tk X y e cv report s = (Inr scores, s')" for scores s'
  proof -
    from evaluate_model_Inr_fits[OF run] obtain new' where
      n': "calls s' = calls s @ new'"
          "length (filter is_Fit new') = nat cv + (if report then 1 else 0)"
          "report \<longrightarrow> (\<exists>X_train X_test y_train y_test rest.
              train_test_split tk X y = Inr (X_train, X_test, y_train, y_test) \<and>
              new' = TrainTestSplit X y # Fit (model s) X_train y_train e # rest)"
      by (elim exE conjE)
    from n(1) n'(1) run have "new' = new" by simp
    with n'(2,3) show ?thesis by simp
  qed
  show ?thesis
  proof (rule exI[of _ new], intro conjI allI impI)
    show "calls (snd (evaluate_model tk X y e cv report s)) = calls s @ new" by (fact n(1))
    show "fits_chain tk (model s) new = Some (model (snd (evaluate_model tk X y e cv report s)))"
      by (fact n(2))
    show "length (filter is_Fit new) \<le> nat cv + (if report then 1 else 0)" by (fact n(3))
  next
    fix scores s' assume "evaluate_model tk X y e cv report s = (Inr scores, s')"
    from returned[OF this]
    show "length (filter is_Fit new) = nat cv + (if report then 1 else 0)" by (rule conjunct1)
  next
    fix scores s' assume "evaluate_model tk X y e cv report s = (Inr scores, s')" and report
    from returned[OF this(1)] this(2)
    show "\<exists>X_train X_test y_train y_test rest.
           train_test_split tk X y = Inr (X_train, X_test, y_train, y_test) \<and>
           new = TrainTestSplit X y # Fit (model s) X_train y_train e # rest" by simp
  qed
qed

lemma take_rows_Inr:
  "\<forall>i\<in>set idx. i < length A \<Longrightarrow> take_rows A idx = Inr (map (\<lambda>i. A ! i) idx)"
  by (simp add: take_rows_def list_all_iff)

lemma fold_body_returns:
  assumes fits: "\<forall>m Xs ys. \<exists>m'. fit tk m Xs ys e = Inr m'"
    and predicts: "\<forall>m Xs. \<exists>p. predict tk m Xs = Inr p"
    and argmaxes: "\<forall>p. \<exists>ls. argmax tk p = Inr ls"
    and f1s: "\<forall>ys ps. \<exists>sc. f1_score tk ys ps = Inr sc"
    and tr: "\<forall>i\<in>set tr. i < length X \<and> i < length y"
    and te: "\<forall>i\<in>set te. i < length X \<and> i < length y"
  shows "\<exists>score s'. fold_body tk X y e tr te s = (Inr score, s')"
proof -
  let ?X_tr = "map (\<lambda>i. X ! i) tr" and ?y_tr = "map (\<lambda>i. y ! i) tr"
  let ?X_te = "map (\<lambda>i. X ! i) te" and ?y_te = "map (\<lambda>i. y ! i) te"
  have rows: "take_rows X tr = Inr ?X_tr" "take_rows y tr = Inr ?y_tr"
    "take_rows X te = Inr ?X_te" "take_rows y te = Inr ?y_te"
    using tr te by (simp_all add: take_rows_Inr)
  from fits obtain m' where m': "fit tk (model s) ?X_tr ?y_tr e = Inr m'" by blast
  from predicts obtain p where p: "predict tk m' ?X_te = Inr p" by blast
  from argmaxes obtain ls where ls: "argmax tk p = Inr ls" by blast
  from f1s obtain sc where sc: "f1_score tk ?y_te ls = Inr sc" by blast
  have "fold_body tk X y e tr te s =
          (Inr sc, s\<lparr>model := m', calls := calls s @ [Fit (model s) ?X_tr ?y_tr e,
             Predict m' ?X_te, Argmax p, F1Score ?y_te ls]\<rparr>)"
    using rows m' p ls sc
    by (simp add: fold_body_def bind_def lift_def model_fit_def predict_labels_def
          library_call_def)
  then show ?thesis by blast
qed

lemma kfold_loop_returns:
  assumes fits: "\<forall>m Xs ys. \<exists>m'. fit tk m Xs ys e = Inr m'"
    and predicts: "\<forall>m Xs. \<exists>p. predict tk m Xs = Inr p"
    and argmaxes: "\<forall>p. \<exists>ls. argmax tk p = Inr ls"
    and f1s: "\<forall>ys ps. \<exists>sc. f1_score tk ys ps = Inr sc"
    and inside: "\<forall>fld\<in>set folds. \<forall>i\<in>set (fst fld) \<union> set (snd fld). i < length X \<and> i < length y"
  shows "\<exists>scores s'. kfold_loop tk X y e folds acc s = (Inr scores, s')"
  using inside
proof (induction folds arbitrary: acc s)
  case Nil
  show ?case by (simp add: returns_def)
next
  case (Cons fld rest)
  obtain tr te where fld: "fld = (tr, te)" by (cases fld)
  from Cons.prems fld have tr: "\<forall>i\<in>set tr. i < length X \<and> i < length y"
    and te: "\<forall>i\<in>set te. i < length X \<and> i < length y" by auto
  from fold_body_returns[OF fits predicts argmaxes f1s tr te, of s]
  obtain score s1 where body: "fold_body tk X y e tr te s = (Inr score, s1)" by blast
  from Cons.prems have "\<forall>fld\<in>set rest. \<forall>i\<in>set (fst fld) \<union> set (snd fld). i < length X \<and> i < length y"
    by simp
  from Cons.IH[OF this, of "acc @ [score]" s1] obtain scores s' where
    "kfold_loop tk X y e rest (acc @ [score]) s1 = (Inr scores, s')" by blast
  with body fld have "kfold_loop tk X y e (fld # rest) acc s = (Inr scores, s')"
    by (simp add: bind_def)
  then show ?case by blast
qed

lemma split_and_report_returns:
  assumes splits: "\<forall>Xs ys. \<exists>r. train_test_split tk Xs ys = Inr r"
    and fits: "\<forall>m Xs ys. \<exists>m'. fit tk m Xs ys e = Inr m'"
    and predicts: "\<forall>m Xs. \<exists>p. predict tk m Xs = Inr p"
    and argmaxes: "\<forall>p. \<exists>ls. argmax tk p = Inr ls"
    and reports: "\<forall>ys ps. \<exists>t. classification_report tk ys ps = Inr t"
  shows "\<exists>s'. split_and_report tk X y e s = (Inr (), s')"
proof -
  from splits obtain X_train X_test y_train y_test where
    sp: "train_test_split tk X y = Inr (X_train, X_test, y_train, y_test)"
    by (metis prod_cases4)
  from fits obtain m1 where m1: "fit tk (model s) X_train y_train e = Inr m1" by blast
  from predicts obtain p where p: "predict tk m1 X_test = Inr p" by blast
  from argmaxes obtain ls where ls: "argmax tk p = Inr ls" by blast
  from reports obtain rep where rep: "classification_report tk y_test ls = Inr rep" by blast
  show ?thesis
    unfolding split_and_report_Inr_iff using sp m1 p ls rep by blast
qed

lemma evaluate_model_False_returns:
  assumes fits: "\<forall>m Xs ys. \<exists>m'. fit tk m Xs ys e = Inr m'"
    and predicts: "\<forall>m Xs. \<exists>p. predict tk m Xs = Inr p"
    and argmaxes: "\<forall>p. \<exists>ls. argmax tk p = Inr ls"
    and f1s: "\<forall>ys ps. \<exists>sc. f1_score tk ys ps = Inr sc"
    and cv: "2 \<le> cv" "nat cv \<le> length X" and y: "length X \<le> length y"
  shows "\<exists>scores s'. evaluate_model tk X y e cv False s = (Inr scores, s')"
proof -
  from cv(2) obtain folds where folds: "KFold_split (nat cv) (length X) = Inr folds"
    by (simp add: KFold_split_def)
  from cv(1) have pos: "0 < nat cv" by simp
  note part = KFold_split_partition[OF pos folds]
  have inside: "\<forall>fld\<in>set folds. \<forall>i\<in>set (fst fld) \<union> set (snd fld). i < length X \<and> i < length y"
  proof (intro ballI)
    fix fld i assume "fld \<in> set folds" and i: "i \<in> set (fst fld) \<union> set (snd fld)"
    then obtain j where j: "j < length folds" "fld = folds ! j" by (auto simp: in_set_conv_nth)
    from part(4)[OF j(1)] part(5)[OF j(1)] i j(2) have "i < length X" by auto
    with y show "i < length X \<and> i < length y" by simp
  qed
  from kfold_loop_returns[OF fits predicts argmaxes f1s inside,
      of "[]" "s\<lparr>calls := calls s @ [KFoldNew cv, KFoldSplit X]\<rparr>"]
  obtain scores s' where
    "kfold_loop tk X y e folds [] (s\<lparr>calls := calls s @ [KFoldNew cv, KFoldSplit X]\<rparr>) =
       (Inr scores, s')" by blast
  with cv(1) folds have "evaluate_model tk X y e cv False s = (Inr scores, s')"
    unfolding evaluate_model_False_Inr_iff by blast
  then show ?thesis by blast
qed

text \<open>
  Claim C4. A call of \<^verbatim>\<open>evaluate_model\<close> that returns has rotated through all \<open>cv\<close> folds
  and returns one score per fold, in the order of the folds: the list has length \<open>cv\<close>
  and its \<open>i\<close>-th element is the score computed for the test labels of fold \<open>i\<close>. A call
  is valid, and does return, when no library call raises, \<open>2 \<le> cv \<le> len(X)\<close> and \<open>y\<close> is
  at least as long as \<open>X\<close>.
\<close>

theorem evaluate_model_one_score_per_fold:
  "(\<forall>scores s'. evaluate_model tk X y e cv report s = (Inr scores, s') \<longrightarrow>
      length scores = nat cv \<and> 2 \<le> cv \<and> nat cv \<le> length X \<and>
      (\<exists>folds. KFold_split (nat cv) (length X) = Inr folds \<and> length folds = nat cv \<and>
         (\<forall>i<nat cv. \<exists>y_te y_pred.
            take_rows y (snd (folds ! i)) = Inr y_te \<and>
            f1_score tk y_te y_pred = Inr (scores ! i)))) \<and>
   ((\<forall>Xs ys. \<exists>r. train_test_split tk Xs ys = Inr r) \<and>
    (\<forall>m Xs ys. \<exists>m'. fit tk m Xs ys e = Inr m') \<and>
    (\<forall>m Xs. \<exists>p. predict tk m Xs = Inr p) \<and>
    (\<forall>p. \<exists>ls. argmax tk p = Inr ls) \<and>
    (\<forall>ys ps. \<exists>t. classification_report tk ys ps = Inr t) \<and>
    (\<forall>ys ps. \<exists>sc. f1_score tk ys ps = Inr sc) \<and>
    2 \<le> cv \<and> nat cv \<le> length X \<and> length X \<le> length y \<longrightarrow>
    (\<exists>scores s'. evaluate_model tk X y e cv report s = (Inr scores, s') \<and>
       length scores = nat cv))"
proof -
  have A: "length scores = nat cv \<and> 2 \<le> cv \<and> nat cv \<le> length X \<and>
      (\<exists>folds. KFold_split (nat cv) (length X) = Inr folds \<and> length folds = nat cv \<and>
         (\<forall>i<nat cv. \<exists>y_te y_pred.
            take_rows y (snd (folds ! i)) = Inr y_te \<and>
            f1_score tk y_te y_pred = Inr (scores ! i)))"
    if run: "evaluate_model tk X y e cv report s = (Inr scores, s')" for scores s'
  proof -
    from evaluate_model_Inr_folds[OF run] obtain folds ms where
      k: "2 \<le> cv" "KFold_split (nat cv) (length X) = Inr folds" "length scores = length folds"
      and each: "\<forall>i<length folds.
        fold_scored tk X y e (folds ! i) (ms ! i) (ms ! Suc i) (scores ! i)"
      by (elim exE conjE)
    from k(2) have le: "nat cv \<le> length X" by (simp add: KFold_split_Inr)
    from k(1) have "0 < nat cv" by simp
    then have len: "length folds = nat cv" using k(2) by (rule KFold_split_partition(1))
    have "\<exists>y_te y_pred. take_rows y (snd (folds ! i)) = Inr y_te \<and>
            f1_score tk y_te y_pred = Inr (scores ! i)" if "i < nat cv" for i
    proof -
      from that len have "i < length folds" by simp
      with each have "fold_scored tk X y e (folds ! i) (ms ! i) (ms ! Suc i) (scores ! i)"
        by blast
      then show ?thesis unfolding fold_scored_def by blast
    qed
    with k le len show ?thesis by auto
  qed
  have B: "\<exists>scores s'. evaluate_model tk X y e cv report s = (Inr scores, s') \<and>
       length scores = nat cv"
    if splits: "\<forall>Xs ys. \<exists>r. train_test_split tk Xs ys = Inr r"
      and fits: "\<forall>m Xs ys. \<exists>m'. fit tk m Xs ys e = Inr m'"
      and predicts: "\<forall>m Xs. \<exists>p. predict tk m Xs = Inr p"
      and argmaxes: "\<forall>p. \<exists>ls. argmax tk p = Inr ls"
      and reports: "\<forall>ys ps. \<exists>t. classification_report tk ys ps = Inr t"
      and f1s: "\<forall>ys ps. \<exists>sc. f1_score tk ys ps = Inr sc"
      and cv: "2 \<le> cv" "nat cv \<le> length X" and y: "length X \<le> length y"
  proof -
    have "\<exists>scores s'. evaluate_model tk X y e cv report s = (Inr scores, s')"
    proof (cases report)
      case False
      with evaluate_model_False_returns[OF fits predicts argmaxes f1s cv y, of s]
      show ?thesis by simp
    next
      case True
      from split_and_report_returns[OF splits fits predicts argmaxes reports, of X y s]
      obtain s0 where s0: "split_and_report tk X y e s = (Inr (), s0)" by blast
      from evaluate_model_False_returns[OF fits predicts argmaxes f1s cv y, of s0]
      obtain scores s' where "evaluate_model tk X y e cv False s0 = (Inr scores, s')" by blast
      with True s0 have "evaluate_model tk X y e cv report s = (Inr scores, s')"
        by (simp add: evaluate_model_True)
      then show ?thesis by blast
    qed
    then obtain scores s' where run: "evaluate_model tk X y e cv report s = (Inr scores, s')"
      by blast
    from A[OF run] have "length scores = nat cv" by simp
    with run show ?thesis by blast
  qed
  show ?thesis
  proof (intro conjI allI impI)
    fix scores s' assume run: "evaluate_model tk X y e cv report s = (Inr scores, s')"
    from A[OF run] show "length scores = nat cv" "2 \<le> cv" "nat cv \<le> length X"
      "\<exists>folds. KFold_split (nat cv) (length X) = Inr folds \<and> length folds = nat cv \<and>
         (\<forall>i<nat cv. \<exists>y_te y_pred.
            take_rows y (snd (folds ! i)) = Inr y_te \<and>
            f1_score tk y_te y_pred = Inr (scores ! i))"
      by simp_all
  next
    assume "(\<forall>Xs ys. \<exists>r. train_test_split tk Xs ys = Inr r) \<and>
    (\<forall>m Xs ys. \<exists>m'. fit tk m Xs ys e = Inr m') \<and>
    (\<forall>m Xs. \<exists>p. predict tk m Xs = Inr p) \<and>
    (\<forall>p. \<exists>ls. argmax tk p = Inr ls) \<and>
    (\<forall>ys ps. \<exists>t. classification_report tk ys ps = Inr t) \<and>
    (\<forall>ys ps. \<exists>sc. f1_score tk ys ps = Inr sc) \<and>
    2 \<le> cv \<and> nat cv \<le> length X \<and> length X \<le> length y"
    then show "\<exists>scores s'. evaluate_model tk X y e cv report s = (Inr scores, s') \<and>
       length scores = nat cv"
      using B by blast
  qed
qed

section \<open>Sample runs of evaluate_model\<close>

text \<open>
  Four samples with the labels \<open>0, 1, 1, 0\<close>, two folds and the sample toolkit, with and
  without the report. The folds are \<open>([2, 3], [0, 1])\<close> and \<open>([0, 1], [2, 3])\<close>.
\<close>

lemma tk0_simps:
  "train_test_split tk0 Xs ys =
     Inr (take (length Xs * 7 div 10) Xs, drop (length Xs * 7 div 10) Xs,
          take (length Xs * 7 div 10) ys, drop (length Xs * 7 div 10) ys)"
  "fit tk0 m Xs ys e = Inr (m + length Xs)"
  "predict tk0 m Xs = Inr (map (\<lambda>x. [m, x]) Xs)"
  "argmax tk0 p = Inr (map argmax_row p)"
  "classification_report tk0 ys ps = Inr ''report''"
  "f1_score tk0 ys ps = Inr (length (filter (\<lambda>(a, b). a = b) (zip ys ps)))"
  by (simp_all add: tk0_def)

lemmas run_defs = bind_def lift_def returns_def library_call_def model_fit_def
  predict_labels_def take_rows_def tk0_simps argmax_row_def

lemma sample_folds: "KFold_split 2 (length [1, 2, 3, 4 :: nat]) = Inr [([2, 3], [0, 1]), ([0, 1], [2, 3])]"
  by code_simp

lemma sample_split:
  "split_and_report tk0 [1, 2, 3, 4] [0, 1, 1, 0] 7 \<lparr>model = 0, calls = []\<rparr> =
     (Inr (),
      \<lparr>model = 2,
       calls = [TrainTestSplit [1, 2, 3, 4] [0, 1, 1, 0], Fit 0 [1, 2] [0, 1] 7,
                Predict 2 [3, 4], Argmax [[2, 3], [2, 4]],
                ClassificationReport [1, 0] [1, 1], Print ''report'']\<rparr>)"
  by (simp add: split_and_report_def run_defs)

lemma sample_fold_0:
  "fold_body tk0 [1, 2, 3, 4] [0, 1, 1, 0] 7 [2, 3] [0, 1] \<lparr>model = 0, calls = cs\<rparr> =
     (Inr 1,
      \<lparr>model = 2,
       calls = cs @ [Fit 0 [3, 4] [1, 0] 7, Predict 2 [1, 2], Argmax [[2, 1], [2, 2]],
                     F1Score [0, 1] [0, 0]]\<rparr>)"
  by (simp add: fold_body_def run_defs)

lemma sample_fold_2:
  "fold_body tk0 [1, 2, 3, 4] [0, 1, 1, 0] 7 [2, 3] [0, 1] \<lparr>model = 2, calls = cs\<rparr> =
     (Inr 1,
      \<lparr>model = 4,
       calls = cs @ [Fit 2 [3, 4] [1, 0] 7, Predict 4 [1, 2], Argmax [[4, 1], [4, 2]],
                     F1Score [0, 1] [0, 0]]\<rparr>)"
  by (simp add: fold_body_def run_defs)

lemma sample_fold_3:
  "fold_body tk0 [1, 2, 3, 4] [0, 1, 1, 0] 7 [0, 1] [2, 3] \<lparr>model = 4, calls = cs\<rparr> =
     (Inr 1,
      \<lparr>model = 6,
       calls = cs @ [Fit 4 [1, 2] [0, 1] 7, Predict 6 [3, 4], Argmax [[6, 3], [6, 4]],
                     F1Score [1, 0] [0, 0]]\<rparr>)"
  by (simp add: fold_body_def run_defs)

lemma sample_fold_1:
  "fold_body tk0 [1, 2, 3, 4] [0, 1, 1, 0] 7 [0, 1] [2, 3] \<lparr>model = 2, calls = cs\<rparr> =
     (Inr 1,
      \<lparr>model = 4,
       calls = cs @ [Fit 2 [1, 2] [0, 1] 7, Predict 4 [3, 4], Argmax [[4, 3], [4, 4]],
                     F1Score [1, 0] [0, 0]]\<rparr>)"
  by (simp add: fold_body_def run_defs)

lemma evaluate_model_False_folds:
  "KFold cv = Inr kf \<Longrightarrow> KFold_split kf (length X) = Inr folds \<Longrightarrow>
   evaluate_model tk X y e cv False s =
     kfold_loop tk X y e folds [] (s\<lparr>calls := calls s @ [KFoldNew cv, KFoldSplit X]\<rparr>)"
  by (simp add: evaluate_model_def bind_def returns_def library_call_def)

lemma sample_KFold: "KFold 2 = Inr 2"
  by (simp add: KFold_def)

lemma run_plain:
  "evaluate_model tk0 [1, 2, 3, 4] [0, 1, 1, 0] 7 2 False \<lparr>model = 0, calls = []\<rparr> =
     (Inr [1, 1],
      \<lparr>model = 4,
       calls = [KFoldNew 2, KFoldSplit [1, 2, 3, 4], Fit 0 [3, 4] [1, 0] 7,
                Predict 2 [1, 2], Argmax [[2, 1], [2, 2]], F1Score [0, 1] [0, 0],
                Fit 2 [1, 2] [0, 1] 7, Predict 4 [3, 4], Argmax [[4, 3], [4, 4]],
                F1Score [1, 0] [0, 0]]\<rparr>)"
  unfolding evaluate_model_False_folds[OF sample_KFold sample_folds]
  by (simp add: sample_fold_0 sample_fold_1 bind_def returns_def del: One_nat_def)

lemma run_report:
  "evaluate_model tk0 [1, 2, 3, 4] [0, 1, 1, 0] 7 2 True \<lparr>model = 0, calls = []\<rparr> =
     (Inr [1, 1],
      \<lparr>model = 6,
       calls = [TrainTestSplit [1, 2, 3, 4] [0, 1, 1, 0], Fit 0 [1, 2] [0, 1] 7,
                Predict 2 [3, 4], Argmax [[2, 3], [2, 4]],
                ClassificationReport [1, 0] [1, 1], Print ''report'', KFoldNew 2,
                KFoldSplit [1, 2, 3, 4], Fit 2 [3, 4] [1, 0] 7, Predict 4 [1, 2],
                Argmax [[4, 1], [4, 2]], F1Score [0, 1] [0, 0],
                Fit 4 [1, 2] [0, 1] 7, Predict 6 [3, 4], Argmax [[6, 3], [6, 4]],
                F1Score [1, 0] [0, 0]]\<rparr>)"
  unfolding evaluate_model_True sample_split prod.case sum.case
    evaluate_model_False_folds[OF sample_KFold sample_folds]
  by (simp add: sample_fold_2 sample_fold_3 bind_def returns_def del: One_nat_def)

text \<open>
  Without the report the call returns its two scores and has made no train/test split,
  nor any other call of the split-and-report phase.
\<close>

theorem evaluate_model_phases_counterexample:
  "fst (evaluate_model tk0 [1, 2, 3, 4] [0, 1, 1, 0] 7 2 False \<lparr>model = 0, calls = []\<rparr>) =
     Inr [1, 1] \<and>
   TrainTestSplit [1, 2, 3, 4] [0, 1, 1, 0] \<notin>
     set (calls (snd (evaluate_model tk0 [1, 2, 3, 4] [0, 1, 1, 0] 7 2 False
                        \<lparr>model = 0, calls = []\<rparr>))) \<and>
   \<not> list_ex report_call
     (calls (snd (evaluate_model tk0 [1, 2, 3, 4] [0, 1, 1, 0] 7 2 False
                    \<lparr>model = 0, calls = []\<rparr>)))"
  unfolding run_plain by simp

text \<open>With the report, the six calls of the first phase come before the splitter is made.\<close>

theorem evaluate_model_phases_witness:
  "\<exists>pre post.
     calls (snd (evaluate_model tk0 [1, 2, 3, 4] [0, 1, 1, 0] 7 2 True \<lparr>model = 0, calls = []\<rparr>)) =
       pre @ post \<and>
     pre = [TrainTestSplit [1, 2, 3, 4] [0, 1, 1, 0], Fit 0 [1, 2] [0, 1] 7, Predict 2 [3, 4],
            Argmax [[2, 3], [2, 4]], ClassificationReport [1, 0] [1, 1], Print ''report''] \<and>
     (\<exists>rest. post = KFoldNew 2 # KFoldSplit [1, 2, 3, 4] # rest) \<and>
     list_all (\<lambda>c. \<not> kfold_call c) pre \<and> list_all (\<lambda>c. \<not> report_call c) post"
proof -
  let ?s = "\<lparr>model = 0, calls = []\<rparr> :: (nat, nat, nat, nat list list) session"
  from evaluate_model_phases[of tk0 "[1, 2, 3, 4]" "[0, 1, 1, 0]" 7 2 True ?s]
  obtain pre post where p:
    "calls (snd (evaluate_model tk0 [1, 2, 3, 4] [0, 1, 1, 0] 7 2 True ?s)) = calls ?s @ pre @ post"
    "list_all (\<lambda>c. \<not> kfold_call c) pre" "list_all (\<lambda>c. \<not> report_call c) post"
    "\<forall>scores s'. evaluate_model tk0 [1, 2, 3, 4] [0, 1, 1, 0] 7 2 True ?s = (Inr scores, s') \<longrightarrow>
        (\<exists>rest. post = KFoldNew 2 # KFoldSplit [1, 2, 3, 4] # rest) \<and>
        (True \<longrightarrow>
           (\<exists>X_train X_test y_train y_test m1 p y_pred text.
              train_test_split tk0 [1, 2, 3, 4] [0, 1, 1, 0] = Inr (X_train, X_test, y_train, y_test) \<and>
              fit tk0 (model ?s) X_train y_train 7 = Inr m1 \<and>
              predict tk0 m1 X_test = Inr p \<and> argmax tk0 p = Inr y_pred \<and>
              classification_report tk0 y_test y_pred = Inr text \<and>
              pre = [TrainTestSplit [1, 2, 3, 4] [0, 1, 1, 0], Fit (model ?s) X_train y_train 7,
                     Predict m1 X_test, Argmax p, ClassificationReport y_test y_pred, Print text]))"
    by (elim exE conjE)
  note q = p(4)[rule_format, OF run_report]
  from q have post: "\<exists>rest. post = KFoldNew 2 # KFoldSplit [1, 2, 3, 4] # rest"
    by (rule conjunct1)
  from q have "\<exists>X_train X_test y_train y_test m1 p y_pred text.
      train_test_split tk0 [1, 2, 3, 4] [0, 1, 1, 0] = Inr (X_train, X_test, y_train, y_test) \<and>
      fit tk0 (model ?s) X_train y_train 7 = Inr m1 \<and>
      predict tk0 m1 X_test = Inr p \<and> argmax tk0 p = Inr y_pred \<and>
      classification_report tk0 y_test y_pred = Inr text \<and>
      pre = [TrainTestSplit [1, 2, 3, 4] [0, 1, 1, 0], Fit (model ?s) X_train y_train 7,
             Predict m1 X_test, Argmax p, ClassificationReport y_test y_pred, Print text]"
    by (simp only: simp_thms)
  then obtain X_train X_test y_train y_test m1 pr y_pred rep where six:
    "train_test_split tk0 [1, 2, 3, 4] [0, 1, 1, 0] = Inr (X_train, X_test, y_train, y_test)"
    "fit tk0 (model ?s) X_train y_train 7 = Inr m1"
    "predict tk0 m1 X_test = Inr pr" "argmax tk0 pr = Inr y_pred"
    "classification_report tk0 y_test y_pred = Inr rep"
    "pre = [TrainTestSplit [1, 2, 3, 4] [0, 1, 1, 0], Fit (model ?s) X_train y_train 7,
            Predict m1 X_test, Argmax pr, ClassificationReport y_test y_pred, Print rep]"
    by (elim exE conjE)
  from six(1) have parts: "X_train = [1, 2]" "X_test = [3, 4]" "y_train = [0, 1]" "y_test = [1, 0]"
    by (simp_all add: tk0_simps)
  from six(2) parts have m1: "m1 = 2" by (simp add: tk0_simps)
  from six(3) parts m1 have pr: "pr = [[2, 3], [2, 4]]" by (auto simp: tk0_simps)
  from six(4) pr have y_pred: "y_pred = [1, 1]" by (auto simp: tk0_simps argmax_row_def)
  from six(5) have rep: "rep = ''report''" by (auto simp: tk0_simps)
  have pre: "pre = [TrainTestSplit [1, 2, 3, 4] [0, 1, 1, 0], Fit 0 [1, 2] [0, 1] 7, Predict 2 [3, 4],
            Argmax [[2, 3], [2, 4]], ClassificationReport [1, 0] [1, 1], Print ''report'']"
    unfolding six(6) parts m1 pr y_pred rep by simp
  from p(1) have "calls (snd (evaluate_model tk0 [1, 2, 3, 4] [0, 1, 1, 0] 7 2 True ?s)) = pre @ post"
    by simp
  with pre post p(2,3) show ?thesis by blast
qed

text \<open>The first fold of the run without the report, from the state the model was passed in.\<close>

theorem evaluate_model_fold_scores_witness:
  "\<exists>ms. length ms = 3 \<and> ms ! 0 = (0::nat) \<and> ms ! 2 = 4 \<and>
      fit tk0 (ms ! 0) [3, 4] [1, 0] 7 = Inr (ms ! 1) \<and>
      (\<exists>p y_pred. predict tk0 (ms ! 1) [1, 2] = Inr p \<and> argmax tk0 p = Inr y_pred \<and>
         f1_score tk0 [0, 1] y_pred = Inr ([1, 1] ! 0))"
proof -
  let ?s = "\<lparr>model = 0, calls = []\<rparr> :: (nat, nat, nat, nat list list) session"
  let ?s' = "\<lparr>model = 4,
       calls = [KFoldNew 2, KFoldSplit [1, 2, 3, 4], Fit 0 [3, 4] [1, 0] 7,
                Predict 2 [1, 2], Argmax [[2, 1], [2, 2]], F1Score [0, 1] [0, 0],
                Fit 2 [1, 2] [0, 1] 7, Predict 4 [3, 4], Argmax [[4, 3], [4, 4]],
                F1Score [1, 0] [0, 0]]\<rparr> :: (nat, nat, nat, nat list list) session"
  let ?X = "[1, 2, 3, 4] :: nat list" and ?y = "[0, 1, 1, 0] :: nat list"
  from evaluate_model_fold_scores[OF run_plain] obtain kf folds ms where
    f: "KFold 2 = Inr kf" "KFold_split kf (length ?X) = Inr folds"
       "length ms = Suc (length folds)" "\<not> False \<longrightarrow> ms ! 0 = model ?s"
       "ms ! length folds = model ?s'"
       "\<forall>i<length folds.
              \<exists>X_tr y_tr X_te y_te p y_pred.
                take_rows ?X (fst (folds ! i)) = Inr X_tr \<and>
                take_rows ?y (fst (folds ! i)) = Inr y_tr \<and>
                fit tk0 (ms ! i) X_tr y_tr 7 = Inr (ms ! Suc i) \<and>
                take_rows ?X (snd (folds ! i)) = Inr X_te \<and>
                predict tk0 (ms ! Suc i) X_te = Inr p \<and>
                argmax tk0 p = Inr y_pred \<and>
                take_rows ?y (snd (folds ! i)) = Inr y_te \<and>
                f1_score tk0 y_te y_pred = Inr ([1, 1] ! i)"
    by (elim exE conjE)
  from f(1) have kf: "kf = 2" by (simp add: sample_KFold)
  from f(2) have folds: "folds = [([2, 3], [0, 1]), ([0, 1], [2, 3])]"
    unfolding kf sample_folds by simp
  have len: "length folds = 2" unfolding folds by simp
  have "0 < length folds" unfolding len by simp
  from f(6)[rule_format, OF this] obtain X_tr y_tr X_te y_te p y_pred where
    g: "take_rows ?X (fst (folds ! 0)) = Inr X_tr" "take_rows ?y (fst (folds ! 0)) = Inr y_tr"
       "fit tk0 (ms ! 0) X_tr y_tr 7 = Inr (ms ! Suc 0)"
       "take_rows ?X (snd (folds ! 0)) = Inr X_te" "predict tk0 (ms ! Suc 0) X_te = Inr p"
       "argmax tk0 p = Inr y_pred" "take_rows ?y (snd (folds ! 0)) = Inr y_te"
       "f1_score tk0 y_te y_pred = Inr ([1, 1] ! 0)"
    by (elim exE conjE)
  from g(1,2,4,7) have parts: "X_tr = [3, 4]" "y_tr = [1, 0]" "X_te = [1, 2]" "y_te = [0, 1]"
    unfolding folds by (auto simp: take_rows_def)
  have a: "length ms = 3" using f(3) len by simp
  have b: "ms ! 0 = 0" using f(4) by simp
  have c: "ms ! 2 = 4" using f(5) len by simp
  have d: "fit tk0 (ms ! 0) [3, 4] [1, 0] 7 = Inr (ms ! 1)" using g(3) parts by simp
  have e: "\<exists>p y_pred. predict tk0 (ms ! 1) [1, 2] = Inr p \<and> argmax tk0 p = Inr y_pred \<and>
         f1_score tk0 [0, 1] y_pred = Inr ([1, 1] ! 0)"
    using g(5,6,8) parts by auto
  from a b c d e show ?thesis by blast
qed

text \<open>Three fits with the report and two folds, each on the state the one before left.\<close>

theorem evaluate_model_fits_witness:
  "length (filter is_Fit
     [TrainTestSplit [1, 2, 3, 4] [0, 1, 1, 0], Fit 0 [1, 2] [0, 1] 7,
      Predict 2 [3, 4], Argmax [[2, 3], [2, 4]],
      ClassificationReport [1, 0] [1, 1], Print ''report'', KFoldNew 2,
      KFoldSplit [1, 2, 3, 4], Fit 2 [3, 4] [1, 0] 7, Predict 4 [1, 2],
      Argmax [[4, 1], [4, 2]], F1Score [0, 1] [0, 0],
      Fit 4 [1, 2] [0, 1] 7, Predict 6 [3, 4], Argmax [[6, 3], [6, 4]],
      F1Score [1, 0] [0, 0 :: nat]]) = nat 2 + 1 \<and>
   fits_chain tk0 0
     [TrainTestSplit [1, 2, 3, 4] [0, 1, 1, 0], Fit 0 [1, 2] [0, 1] 7,
      Predict 2 [3, 4], Argmax [[2, 3], [2, 4]],
      ClassificationReport [1, 0] [1, 1], Print ''report'', KFoldNew 2,
      KFoldSplit [1, 2, 3, 4], Fit 2 [3, 4] [1, 0] 7, Predict 4 [1, 2],
      Argmax [[4, 1], [4, 2]], F1Score [0, 1] [0, 0],
      Fit 4 [1, 2] [0, 1] 7, Predict 6 [3, 4], Argmax [[6, 3], [6, 4]],
      F1Score [1, 0] [0, 0]] = Some 6"
proof -
  let ?s = "\<lparr>model = 0, calls = []\<rparr> :: (nat, nat, nat, nat list list) session"
  let ?run = "evaluate_model tk0 [1, 2, 3, 4] [0, 1, 1, 0] 7 2 True ?s"
  from evaluate_model_fits[of tk0 "[1, 2, 3, 4]" "[0, 1, 1, 0]" 7 2 True ?s] obtain new where
    n: "calls (snd ?run) = calls ?s @ new"
       "fits_chain tk0 (model ?s) new = Some (model (snd ?run))"
       "\<forall>scores s'. ?run = (Inr scores, s') \<longrightarrow>
          length (filter is_Fit new) = nat 2 + (if True then 1 else 0) \<and>
          (True \<longrightarrow> (\<exists>X_train X_test y_train y_test rest.
             train_test_split tk0 [1, 2, 3, 4] [0, 1, 1, 0] =
               Inr (X_train, X_test, y_train, y_test) \<and>
             new = TrainTestSplit [1, 2, 3, 4] [0, 1, 1, 0] #
                   Fit (model ?s) X_train y_train 7 # rest))"
    by (elim exE conjE)
  from n(3)[rule_format, OF run_report]
  have count: "length (filter is_Fit new) = nat 2 + (if True then 1 else 0)"
    by (rule conjunct1)
  from n(1) have new: "new = calls (snd ?run)" by simp
  from count n(2) show ?thesis unfolding new run_report by simp
qed

text \<open>The sample toolkit never raises, so the call is valid and returns two scores.\<close>

theorem evaluate_model_one_score_per_fold_witness:
  "(\<exists>scores s'. evaluate_model tk0 [1, 2, 3, 4] [0, 1, 1, 0] 7 2 True \<lparr>model = 0, calls = []\<rparr> =
       (Inr scores, s') \<and> length scores = nat 2) \<and>
   length [1, 1 :: nat] = nat 2 \<and>
   (\<exists>folds. KFold_split (nat 2) (length [1, 2, 3, 4 :: nat]) = Inr folds \<and> length folds = nat 2 \<and>
      (\<exists>y_te y_pred. take_rows [0, 1, 1, 0 :: nat] (snd (folds ! 1)) = Inr y_te \<and>
         f1_score tk0 y_te y_pred = Inr ([1, 1] ! 1)))"
proof -
  let ?s = "\<lparr>model = 0, calls = []\<rparr> :: (nat, nat, nat, nat list list) session"
  let ?X = "[1, 2, 3, 4] :: nat list" and ?y = "[0, 1, 1, 0] :: nat list"
  note t = evaluate_model_one_score_per_fold[of tk0 ?X ?y 7 2 True ?s]
  note u = evaluate_model_one_score_per_fold[of tk0 ?X ?y 7 2 False ?s]
  have valid: "(\<forall>Xs ys. \<exists>r. train_test_split tk0 Xs ys = Inr r) \<and>
    (\<forall>m Xs ys. \<exists>m'. fit tk0 m Xs ys 7 = Inr m') \<and>
    (\<forall>m Xs. \<exists>p. predict tk0 m Xs = Inr p) \<and>
    (\<forall>p. \<exists>ls. argmax tk0 p = Inr ls) \<and>
    (\<forall>ys ps. \<exists>t. classification_report tk0 ys ps = Inr t) \<and>
    (\<forall>ys ps. \<exists>sc. f1_score tk0 ys ps = Inr sc) \<and>
    2 \<le> (2::int) \<and> nat 2 \<le> length ?X \<and> length ?X \<le> length ?y"
    by (simp add: tk0_simps)
  from t[THEN conjunct2, rule_format, OF valid]
  have a: "\<exists>scores s'. evaluate_model tk0 ?X ?y 7 2 True ?s = (Inr scores, s') \<and>
       length scores = nat 2" .
  from u[THEN conjunct1, rule_format, OF run_plain]
  have b: "length [1, 1 :: nat] = nat 2 \<and> 2 \<le> (2::int) \<and> nat 2 \<le> length ?X \<and>
      (\<exists>folds. KFold_split (nat 2) (length ?X) = Inr folds \<and> length folds = nat 2 \<and>
         (\<forall>i<nat 2. \<exists>y_te y_pred.
            take_rows ?y (snd (folds ! i)) = Inr y_te \<and>
            f1_score tk0 y_te y_pred = Inr ([1, 1] ! i)))" .
  then obtain folds where c: "KFold_split (nat 2) (length ?X) = Inr folds" "length folds = nat 2"
    "\<forall>i<nat 2. \<exists>y_te y_pred.
            take_rows ?y (snd (folds ! i)) = Inr y_te \<and>
            f1_score tk0 y_te y_pred = Inr ([1, 1] ! i)"
    by (elim exE conjE)
  have "1 < nat 2" by simp
  from c(3)[rule_format, OF this]
  have d: "\<exists>y_te y_pred. take_rows ?y (snd (folds ! 1)) = Inr y_te \<and>
         f1_score tk0 y_te y_pred = Inr ([1, 1] ! 1)" .
  from b have e: "length [1, 1 :: nat] = nat 2" by (rule conjunct1)
  from a e c(1,2) d show ?thesis by blast
qed

end
